theory Spec2Isabelle
  imports Main "HOL-Library.Multiset" "HOL-Library.AList" "HOL-Library.List_Lexorder"
    "HOL-Library.Product_Lexorder" "HOL-Library.Code_Target_Nat"
begin

section \<open>The batch driver analyze-trace-dir\<close>

text \<open>
  A shallow embedding of \<^verbatim>\<open>src/analyze-trace-dir.ts\<close>: discovery of the projects of a
  trace directory, one analyzer run per project, the classification of each run, the
  ranked report and the exit status.

  What the host supplies (file system, JSON parser, collation, the analyzer child
  process) is a field of the record \<open>Host\<close>. A promise is the sum \<open>error + 'a\<close>: \<open>Inl\<close> is a
  rejection carrying the message of the thrown error. A string is the sequence of the UTF-8
  bytes of the host's string; the patterns of the source only mention ASCII characters,
  and the characters beyond ASCII that the host treats as white space or as line
  terminators are written as their byte sequences. The order in which the children
  run is not modelled: each child is a function of its arguments, and \<^verbatim>\<open>Promise.all\<close>
  returns the results in the order of the projects.
\<close>

subsection \<open>Values of the host language\<close>

type_synonym error = string

text \<open>Truthiness of a string, of an optional string and of an optional number.\<close>

definition truthy_string :: "string \<Rightarrow> bool" where
  "truthy_string s = (s \<noteq> [])"

definition truthy_opt_string :: "string option \<Rightarrow> bool" where
  "truthy_opt_string v = (case v of None \<Rightarrow> False | Some s \<Rightarrow> truthy_string s)"

definition truthy_opt_number :: "int option \<Rightarrow> bool" where
  "truthy_opt_number v = (case v of None \<Rightarrow> False | Some n \<Rightarrow> n \<noteq> 0)"

text \<open>The decimal rendering of a number inside a template string.\<close>

fun string_of_nat :: "nat \<Rightarrow> string" where
  "string_of_nat n =
     (if n < 10 then [char_of (48 + n)]
      else string_of_nat (n div 10) @ [char_of (48 + n mod 10)])"

declare string_of_nat.simps [simp del]

definition string_of_int :: "int \<Rightarrow> string" where
  "string_of_int i = (if i < 0 then CHR ''-'' # string_of_nat (nat (- i)) else string_of_nat (nat i))"

text \<open>\<^verbatim>\<open>\d\<close>, and the number that a run of digits writes in decimal.\<close>

definition is_digit :: "char \<Rightarrow> bool" where
  "is_digit c = (48 \<le> (of_char c :: nat) \<and> (of_char c :: nat) \<le> 57)"

definition digit_val :: "char \<Rightarrow> nat" where
  "digit_val c = of_char c - 48"

definition decimal :: "string \<Rightarrow> nat" where
  "decimal ds = foldl (\<lambda>n c. 10 * n + digit_val c) 0 ds"

text \<open>
  A number of the host is an IEEE double. The doubles that a run of digits can denote are
  non-negative integers and \<^verbatim>\<open>Infinity\<close>. \<open>round_double n\<close> is the double nearest to \<open>n\<close>:
  \<open>n\<close> itself below \<open>2 ^ 53\<close>; above, \<open>n\<close> is cut to its 53 leading bits, rounding to the
  nearest and, half way, to the even one; \<^verbatim>\<open>Infinity\<close> when this gives \<open>2 ^ 1024\<close> or more.
  (Beyond twenty significant digits the language standard lets a host round a little
  differently; the engine of the host rounds exactly.)
\<close>

datatype score = Finite nat | Infinity

fun bit_length :: "nat \<Rightarrow> nat" where
  "bit_length n = (if n = 0 then 0 else Suc (bit_length (n div 2)))"

declare bit_length.simps [simp del]

definition round_double :: "nat \<Rightarrow> score" where
  "round_double n =
     (if n < 2 ^ 53 then Finite n
      else
        let e = bit_length n - 53;
            q = n div 2 ^ e;
            r = n mod 2 ^ e;
            half = 2 ^ (e - 1);
            q' = (if half < r \<or> (r = half \<and> odd q) then q + 1 else q);
            m = q' * 2 ^ e
        in if 2 ^ 1024 \<le> m then Infinity else Finite m)"

text \<open>The unary plus on a run of digits.\<close>

definition to_number :: "string \<Rightarrow> score" where
  "to_number ds = round_double (decimal ds)"

text \<open>
  The difference of two such doubles is an integer, an infinity or \<^verbatim>\<open>NaN\<close>; so is what
  a comparator returns.
\<close>

datatype number = Number int | PosInfinity | NegInfinity | NaN

definition score_minus :: "score \<Rightarrow> score \<Rightarrow> number" where
  "score_minus b a =
     (case (b, a) of
        (Finite x, Finite y) \<Rightarrow>
          if y \<le> x then
            (case round_double (x - y) of Finite m \<Rightarrow> Number (int m) | Infinity \<Rightarrow> PosInfinity)
          else
            (case round_double (y - x) of Finite m \<Rightarrow> Number (- int m) | Infinity \<Rightarrow> NegInfinity)
      | (Infinity, Finite y) \<Rightarrow> PosInfinity
      | (Finite x, Infinity) \<Rightarrow> NegInfinity
      | (Infinity, Infinity) \<Rightarrow> NaN)"

definition truthy_number :: "number \<Rightarrow> bool" where
  "truthy_number v = (case v of Number i \<Rightarrow> i \<noteq> 0 | NaN \<Rightarrow> False | _ \<Rightarrow> True)"

text \<open>
  \<^verbatim>\<open>String.prototype.trim\<close> removes the white space and the line terminators at both
  ends: tab, line feed, vertical tab, form feed, carriage return, space, and beyond ASCII
  U+00A0, U+1680, U+2000 to U+200A, U+2028, U+2029, U+202F, U+205F, U+3000 and U+FEFF.
\<close>

definition white_space :: "string list" where
  "white_space =
     map (map char_of)
       ([[9], [10], [11], [12], [13], [32], [0xC2, 0xA0], [0xE1, 0x9A, 0x80]]
        @ map (\<lambda>b. [0xE2, 0x80, b]) [0x80, 0x81, 0x82, 0x83, 0x84, 0x85, 0x86, 0x87, 0x88, 0x89, 0x8A]
        @ [[0xE2, 0x80, 0xA8], [0xE2, 0x80, 0xA9], [0xE2, 0x80, 0xAF], [0xE2, 0x81, 0x9F],
           [0xE3, 0x80, 0x80], [0xEF, 0xBB, 0xBF :: nat]])"

definition leading :: "string list \<Rightarrow> string \<Rightarrow> string option" where
  "leading seqs s = find (\<lambda>w. w \<noteq> [] \<and> take (length w) s = w) seqs"

function strip_leading :: "string list \<Rightarrow> string \<Rightarrow> string" where
  "strip_leading seqs s =
     (case leading seqs s of
        None \<Rightarrow> s
      | Some w \<Rightarrow> strip_leading seqs (drop (length w) s))"
  by pat_completeness auto
termination
proof (relation "measure (\<lambda>(seqs, s). length s)")
  show "wf (measure (\<lambda>(seqs, s). length s))" by simp
next
  fix seqs :: "string list" and s w :: string
  assume "leading seqs s = Some w"
  then have "w \<noteq> []" and "take (length w) s = w"
    by (auto simp: leading_def find_Some_iff)
  from \<open>w \<noteq> []\<close> have "0 < length w" by simp
  moreover have "length (take (length w) s) = length w"
    by (rule arg_cong [OF \<open>take (length w) s = w\<close>])
  then have "length w \<le> length s"
    by simp
  ultimately show "((seqs, drop (length w) s), (seqs, s)) \<in> measure (\<lambda>(seqs, s). length s)"
    by (cases w) auto
qed

declare strip_leading.simps [simp del]

definition trim :: "string \<Rightarrow> string" where
  "trim s = rev (strip_leading (map rev white_space) (rev (strip_leading white_space s)))"

subsection \<open>The regular expressions of the source\<close>

text \<open>
  \<^verbatim>\<open>/\((\d+)[ ]*ms\)/\<close> anchored at the head of \<open>s\<close>: an opening parenthesis, the longest
  run of digits (not empty), the longest run of blanks, then \<^verbatim>\<open>ms)\<close>. Giving back digits or
  blanks never helps: the character after a shorter run is again a digit or a blank. The
  result is capture group 1.
\<close>

definition match_ms_here :: "string \<Rightarrow> string option" where
  "match_ms_here s =
     (case s of
        [] \<Rightarrow> None
      | c # rest \<Rightarrow>
          if c \<noteq> CHR ''('' then None
          else
            let ds = takeWhile is_digit rest;
                r1 = dropWhile is_digit rest;
                r2 = dropWhile (\<lambda>b. b = CHR '' '') r1
            in if ds \<noteq> [] \<and> take 3 r2 = ''ms)'' then Some ds else None)"

text \<open>\<^verbatim>\<open>stdout.match(/\((\d+)[ ]*ms\)/)\<close>: the match at the leftmost position that has one.\<close>

fun match_ms :: "string \<Rightarrow> string option" where
  "match_ms [] = None"
| "match_ms (c # cs) =
     (case match_ms_here (c # cs) of
        Some ds \<Rightarrow> Some ds
      | None \<Rightarrow> match_ms cs)"

text \<open>
  \<^verbatim>\<open>name.match(/^trace(.*\.json)$/)\<close>, capture group 1: the name starts with \<^verbatim>\<open>trace\<close>, what
  follows ends with \<^verbatim>\<open>.json\<close>, and the dot-star part holds no line terminator: line feed,
  carriage return, U+2028 or U+2029.
\<close>

definition line_terminators :: "string list" where
  "line_terminators = map (map char_of) [[10], [13], [0xE2, 0x80, 0xA8], [0xE2, 0x80, 0xA9 :: nat]]"

fun has_line_terminator :: "string \<Rightarrow> bool" where
  "has_line_terminator [] = False"
| "has_line_terminator (c # cs) =
     (leading line_terminators (c # cs) \<noteq> None \<or> has_line_terminator cs)"

definition match_trace :: "string \<Rightarrow> string option" where
  "match_trace name =
     (let rest = drop 5 name in
      if take 5 name = ''trace'' \<and> 5 \<le> length rest
         \<and> drop (length rest - 5) rest = ''.json''
         \<and> \<not> has_line_terminator (take (length rest - 5) rest)
      then Some rest else None)"

subsection \<open>The path module (POSIX flavour)\<close>

definition is_slash :: "char \<Rightarrow> bool" where
  "is_slash c = (c = CHR ''/'')"

text \<open>\<^verbatim>\<open>path.basename\<close>: trailing separators are dropped, then what follows the last one is kept.\<close>

definition basename :: "string \<Rightarrow> string" where
  "basename p = rev (takeWhile (\<lambda>c. \<not> is_slash c) (dropWhile is_slash (rev p)))"

fun split_slash :: "string \<Rightarrow> string list" where
  "split_slash [] = [[]]"
| "split_slash (c # cs) =
     (if is_slash c then [] # split_slash cs
      else (case split_slash cs of
              [] \<Rightarrow> [[c]]
            | s # ss \<Rightarrow> (c # s) # ss))"

fun join_slash :: "string list \<Rightarrow> string" where
  "join_slash [] = []"
| "join_slash [s] = s"
| "join_slash (s # t # ss) = s @ CHR ''/'' # join_slash (t # ss)"

text \<open>
  \<^verbatim>\<open>normalizeString\<close> on the segments of a path: empty segments and \<^verbatim>\<open>.\<close> are skipped, \<^verbatim>\<open>..\<close>
  removes the segment before it, and is kept only where going above the start is allowed.
\<close>

fun normalize_segments :: "bool \<Rightarrow> string list \<Rightarrow> string list \<Rightarrow> string list" where
  "normalize_segments allowAboveRoot res [] = res"
| "normalize_segments allowAboveRoot res (s # ss) =
     (if s = [] \<or> s = ''.'' then normalize_segments allowAboveRoot res ss
      else if s = ''..'' then
        (if res \<noteq> [] \<and> last res \<noteq> ''..'' then normalize_segments allowAboveRoot (butlast res) ss
         else if allowAboveRoot then normalize_segments allowAboveRoot (res @ [''..'']) ss
         else normalize_segments allowAboveRoot res ss)
      else normalize_segments allowAboveRoot (res @ [s]) ss)"

definition normalizeString :: "string \<Rightarrow> bool \<Rightarrow> string" where
  "normalizeString p allowAboveRoot = join_slash (normalize_segments allowAboveRoot [] (split_slash p))"

definition isAbsolute :: "string \<Rightarrow> bool" where
  "isAbsolute p = (case p of [] \<Rightarrow> False | c # _ \<Rightarrow> is_slash c)"

definition path_normalize :: "string \<Rightarrow> string" where
  "path_normalize p =
     (if p = [] then ''.''
      else
        let trailingSeparator = is_slash (last p);
            q = normalizeString p (\<not> isAbsolute p)
        in if q = [] then (if isAbsolute p then ''/'' else if trailingSeparator then ''./'' else ''.'')
           else (if isAbsolute p then ''/'' else []) @ q @ (if trailingSeparator then ''/'' else []))"

definition path_join :: "string list \<Rightarrow> string" where
  "path_join args =
     (let parts = filter (\<lambda>a. a \<noteq> []) args
      in if parts = [] then ''.'' else path_normalize (join_slash parts))"

text \<open>
  \<^verbatim>\<open>path.resolve\<close>: the arguments are taken from the right until one is absolute, the working
  directory last; empty arguments are skipped.
\<close>

fun resolve_loop :: "string list \<Rightarrow> string \<Rightarrow> string" where
  "resolve_loop [] resolvedPath = resolvedPath"
| "resolve_loop (p # ps) resolvedPath =
     (if p = [] then resolve_loop ps resolvedPath
      else if isAbsolute p then p @ CHR ''/'' # resolvedPath
      else resolve_loop ps (p @ CHR ''/'' # resolvedPath))"

definition path_resolve :: "string \<Rightarrow> string list \<Rightarrow> string" where
  "path_resolve cwd args =
     (let resolvedPath = resolve_loop (rev (cwd # args)) [];
          q = normalizeString resolvedPath (\<not> isAbsolute resolvedPath)
      in if isAbsolute resolvedPath then CHR ''/'' # q
         else if q \<noteq> [] then q else ''.'')"

subsection \<open>Data model\<close>

record Project =
  configFilePath :: "string option"
  tracePath :: string
  typesPath :: string

record ProjectResult =
  project :: Project
  stdout :: string
  stderr :: string
  exitCode :: "int option"
  signal :: "string option"

text \<open>An element of \<open>hadHighlights\<close>: the result together with its score.\<close>

type_synonym ScoredResult = "ProjectResult \<times> score"

record Stats =
  stats_isFile :: bool

record Dirent =
  dirent_name :: string
  dirent_isFile :: bool

text \<open>What a finished child process hands to the \<^verbatim>\<open>exit\<close> handler.\<close>

record Child =
  child_stdout :: string
  child_stderr :: string
  child_code :: "int option"
  child_signal :: "string option"

text \<open>
  A value that \<^verbatim>\<open>JSON.parse\<close> returns. An object is the list of its properties, each key
  once. Of a number only zero or not matters here; the integers stand for all.
\<close>

datatype json =
    JNull
  | JBool bool
  | JNumber int
  | JString string
  | JArray "json list"
  | JObject "(string \<times> json) list"

text \<open>
  The type errors that the code can raise on a legend: the value iterated over is not
  iterable, a property is read from \<^verbatim>\<open>null\<close>, the argument of \<^verbatim>\<open>path.basename\<close> is not a
  string (\<open>None\<close> is \<^verbatim>\<open>undefined\<close>), \<^verbatim>\<open>projects.map\<close> is not a function. The wording of the
  message is the host's.
\<close>

datatype type_error =
    NotIterable json
  | PropertyOfNull string
  | PathNotString "json option"
  | NotAFunction json

record Host =
  cwd :: string
  traceDir :: string
  forwardedOptions :: "string list"
  stat :: "string \<Rightarrow> error + Stats"
  readFile :: "string \<Rightarrow> error + string"
  JSON_parse :: "string \<Rightarrow> error + json"
  typeErrorMessage :: "type_error \<Rightarrow> string"
  readdir :: "string \<Rightarrow> error + Dirent list"
  localeCompare :: "string \<Rightarrow> string \<Rightarrow> int"
  fork :: "string list \<Rightarrow> Child"

subsection \<open>Running the analyzer on one project\<close>

text \<open>\<^verbatim>\<open>fs.promises.stat(path).then(stats => stats.isFile()).catch(_ => false)\<close>\<close>

definition promise_then :: "error + 'a \<Rightarrow> ('a \<Rightarrow> 'b) \<Rightarrow> error + 'b" where
  "promise_then p f = (case p of Inl e \<Rightarrow> Inl e | Inr x \<Rightarrow> Inr (f x))"

definition promise_catch :: "error + 'a \<Rightarrow> (error \<Rightarrow> 'a) \<Rightarrow> error + 'a" where
  "promise_catch p f = (case p of Inl e \<Rightarrow> Inr (f e) | Inr x \<Rightarrow> Inr x)"

definition isFile :: "Host \<Rightarrow> string \<Rightarrow> error + bool" where
  "isFile host path = promise_catch (promise_then (stat host path) stats_isFile) (\<lambda>_. False)"

text \<open>
  Modelled from the spec: \<^verbatim>\<open>pushCommandLineOptions\<close> is imported from
  \<^verbatim>\<open>./analyze-trace-options\<close>, which is not among the sources. The spec has the forwarded
  command-line options follow the positional arguments, unchanged; \<open>forwardedOptions\<close> is
  what \<^verbatim>\<open>argv\<close> yields.
\<close>

definition pushCommandLineOptions :: "string list \<Rightarrow> string list \<Rightarrow> string list" where
  "pushCommandLineOptions args forwarded = args @ forwarded"

text \<open>The argument vector handed to \<^verbatim>\<open>cp.fork\<close>; a rejected \<open>isFile\<close> rejects the analysis.\<close>

definition forkArgs :: "Host \<Rightarrow> Project \<Rightarrow> error + string list" where
  "forkArgs host proj =
     (let args = [tracePath proj] in
      case isFile host (typesPath proj) of
        Inl e \<Rightarrow> Inl e
      | Inr b \<Rightarrow>
          let args = (if b then args @ [typesPath proj] else args)
          in Inr (pushCommandLineOptions args (forwardedOptions host)))"

text \<open>The \<^verbatim>\<open>exit\<close> handler: the result resolved for a finished child.\<close>

definition onExit :: "Project \<Rightarrow> Child \<Rightarrow> ProjectResult" where
  "onExit proj child =
     \<lparr>project = proj,
      stdout = trim (child_stdout child),
      stderr = trim (child_stderr child),
      exitCode = child_code child,
      signal = child_signal child\<rparr>"

definition analyzeProject :: "Host \<Rightarrow> Project \<Rightarrow> error + ProjectResult" where
  "analyzeProject host proj =
     (case forkArgs host proj of
        Inl e \<Rightarrow> Inl e
      | Inr args \<Rightarrow> Inr (onExit proj (fork host args)))"

text \<open>
  \<^verbatim>\<open>Promise.all\<close> over the projects: the results in the order of the projects, or the
  rejection of the first rejected one. The concurrency limit changes when a child starts,
  not what it is given or what it returns.
\<close>

fun promise_all :: "(error + 'a) list \<Rightarrow> error + 'a list" where
  "promise_all [] = Inr []"
| "promise_all (p # ps) =
     (case p of
        Inl e \<Rightarrow> Inl e
      | Inr x \<Rightarrow> (case promise_all ps of Inl e \<Rightarrow> Inl e | Inr xs \<Rightarrow> Inr (x # xs)))"

subsection \<open>Classification, ranking and the report\<close>

text \<open>The first loop of \<^verbatim>\<open>analyzeProjects\<close>, with its two accumulators.\<close>

fun classifyLoop ::
  "ProjectResult list \<Rightarrow> ScoredResult list \<Rightarrow> ProjectResult list
     \<Rightarrow> ScoredResult list \<times> ProjectResult list" where
  "classifyLoop [] hadHighlights hadErrors = (hadHighlights, hadErrors)"
| "classifyLoop (result # results) hadHighlights hadErrors =
     (if truthy_string (stderr result) \<or> truthy_opt_string (signal result) then
        classifyLoop results hadHighlights (hadErrors @ [result])
      else if truthy_opt_number (exitCode result) then
        (if exitCode result \<noteq> Some 1 then
           classifyLoop results hadHighlights (hadErrors @ [result])
         else classifyLoop results hadHighlights hadErrors)
      else
        let score = (case match_ms (stdout result) of Some ds \<Rightarrow> to_number ds | None \<Rightarrow> Finite 0)
        in classifyLoop results (hadHighlights @ [(result, score)]) hadErrors)"

text \<open>
  The comparator of the sort: \<^verbatim>\<open>b.score - a.score || a.project.tracePath.localeCompare(b.project.tracePath)\<close>.
\<close>

definition compareHighlights :: "(string \<Rightarrow> string \<Rightarrow> int) \<Rightarrow> ScoredResult \<Rightarrow> ScoredResult \<Rightarrow> number" where
  "compareHighlights lc a b =
     (let d = score_minus (snd b) (snd a)
      in if truthy_number d then d
         else Number (lc (tracePath (project (fst a))) (tracePath (project (fst b)))))"

text \<open>
  \<^verbatim>\<open>Array.prototype.sort\<close> with a comparator is a stable sort; it reads the sign of what the
  comparator returns, and \<^verbatim>\<open>NaN\<close> as zero. \<open>not_after v\<close>: by the returned \<open>v\<close> the first
  argument need not come after the second. Under a consistent comparator every stable
  sort returns the same array; insertion from the right is one.
\<close>

definition not_after :: "number \<Rightarrow> bool" where
  "not_after v =
     (case v of Number i \<Rightarrow> i \<le> 0 | NegInfinity \<Rightarrow> True | PosInfinity \<Rightarrow> False | NaN \<Rightarrow> True)"

fun insert_by :: "('a \<Rightarrow> 'a \<Rightarrow> number) \<Rightarrow> 'a \<Rightarrow> 'a list \<Rightarrow> 'a list" where
  "insert_by cmp x [] = [x]"
| "insert_by cmp x (y # ys) =
     (if not_after (cmp x y) then x # y # ys else y # insert_by cmp x ys)"

definition array_sort :: "('a \<Rightarrow> 'a \<Rightarrow> number) \<Rightarrow> 'a list \<Rightarrow> 'a list" where
  "array_sort cmp xs = foldr (insert_by cmp) xs []"

definition getProjectDescription :: "Project \<Rightarrow> string" where
  "getProjectDescription p =
     (case configFilePath p of
        None \<Rightarrow> basename (tracePath p)
      | Some c \<Rightarrow>
          if truthy_string c then c @ '' ('' @ basename (tracePath p) @ '')''
          else basename (tracePath p))"

text \<open>
  The console is the list of the arguments of the \<^verbatim>\<open>console.log\<close> calls made so far; the
  call without argument logs the empty string. Each printing loop carries the flag
  \<open>first\<close> and the console.
\<close>

fun printHighlights :: "nat \<Rightarrow> ScoredResult list \<Rightarrow> bool \<Rightarrow> string list \<Rightarrow> bool \<times> string list" where
  "printHighlights projectCount [] first out = (first, out)"
| "printHighlights projectCount (result # rest) first out =
     (let out1 = (if \<not> first then out @ [[]] else out);
          p = project (fst result);
          out2 = (if 1 < projectCount \<or> truthy_opt_string (configFilePath p)
                  then out1 @ [''Analyzed '' @ getProjectDescription p] else out1)
      in printHighlights projectCount rest False (out2 @ [stdout (fst result)]))"

fun printErrors :: "ProjectResult list \<Rightarrow> bool \<Rightarrow> string list \<Rightarrow> bool \<times> string list" where
  "printErrors [] first out = (first, out)"
| "printErrors (errorResult # rest) first out =
     (let out1 = (if \<not> first then out @ [[]] else out);
          p = project errorResult;
          out2 = out1 @ [''Error analyzing '' @ getProjectDescription p];
          out3 =
            (if truthy_string (stderr errorResult) then out2 @ [stderr errorResult]
             else if truthy_opt_number (exitCode errorResult) then
               out2 @ [''Exited with code '' @ (case exitCode errorResult of Some n \<Rightarrow> string_of_int n | None \<Rightarrow> [])]
             else if truthy_opt_string (signal errorResult) then
               out2 @ [''Terminated with signal '' @ (case signal errorResult of Some s \<Rightarrow> s | None \<Rightarrow> [])]
             else out2)
      in printErrors rest False out3)"

text \<open>\<^verbatim>\<open>analyzeProjects\<close> from the results on: what is logged and the status returned.\<close>

definition reportResults ::
  "(string \<Rightarrow> string \<Rightarrow> int) \<Rightarrow> nat \<Rightarrow> ProjectResult list \<Rightarrow> string list \<times> int" where
  "reportResults lc projectCount results =
     (let (hadHighlights, hadErrors) = classifyLoop results [] [];
          sorted = array_sort (compareHighlights lc) hadHighlights;
          (first1, out1) = printHighlights projectCount sorted True [];
          (first2, out2) = printErrors hadErrors first1 out1;
          interestingCount = length sorted + length hadErrors;
          out3 =
            (if interestingCount < projectCount then
               (if \<not> first2 then out2 @ [[]] else out2)
                 @ [''Found nothing in '' @ string_of_nat (projectCount - interestingCount)
                      @ (if interestingCount \<noteq> 0 then '' other'' else []) @ '' project(s)'']
             else out2)
      in (out3, if 0 < length hadErrors then 2 else if 0 < length sorted then 0 else 1))"

definition analyzeProjects :: "Host \<Rightarrow> Project list \<Rightarrow> error + string list \<times> int" where
  "analyzeProjects host projects =
     (case promise_all (map (analyzeProject host) projects) of
        Inl e \<Rightarrow> Inl e
      | Inr results \<Rightarrow> Inr (reportResults (localeCompare host) (length projects) results))"

subsection \<open>Discovery and the entry point\<close>

text \<open>
  The body of the loop over the legend, on one entry. Reading a property of \<^verbatim>\<open>null\<close> throws;
  a value that is not an object has no property \<^verbatim>\<open>tracePath\<close>; \<^verbatim>\<open>path.basename\<close> throws on
  what is not a string. An assignment is reached on objects only, and replaces the
  property in place or adds it. The result is the entry as the round leaves it, and the
  error thrown, if any: when the types path throws, the trace path is already re-rooted.
\<close>

definition getProperty :: "json \<Rightarrow> string \<Rightarrow> type_error + json option" where
  "getProperty e key =
     (case e of
        JNull \<Rightarrow> Inl (PropertyOfNull key)
      | JObject props \<Rightarrow> Inr (map_of props key)
      | _ \<Rightarrow> Inr None)"

definition setProperty :: "json \<Rightarrow> string \<Rightarrow> json \<Rightarrow> json" where
  "setProperty e key v = (case e of JObject props \<Rightarrow> JObject (AList.update key v props) | _ \<Rightarrow> e)"

definition basenameOf :: "json option \<Rightarrow> type_error + string" where
  "basenameOf v = (case v of Some (JString s) \<Rightarrow> Inr (basename s) | _ \<Rightarrow> Inl (PathNotString v))"

definition rerootProperty :: "Host \<Rightarrow> json \<Rightarrow> string \<Rightarrow> type_error + json" where
  "rerootProperty host e key =
     (case getProperty e key of
        Inl t \<Rightarrow> Inl t
      | Inr v \<Rightarrow>
          (case basenameOf v of
             Inl t \<Rightarrow> Inl t
           | Inr b \<Rightarrow> Inr (setProperty e key (JString (path_resolve (cwd host) [traceDir host, b])))))"

definition rerootEntry :: "Host \<Rightarrow> json \<Rightarrow> json \<times> type_error option" where
  "rerootEntry host e =
     (case rerootProperty host e ''tracePath'' of
        Inl t \<Rightarrow> (e, Some t)
      | Inr e1 \<Rightarrow>
          (case rerootProperty host e1 ''typesPath'' of
             Inl t \<Rightarrow> (e1, Some t)
           | Inr e2 \<Rightarrow> (e2, None)))"

fun legendLoop :: "Host \<Rightarrow> json list \<Rightarrow> json list \<times> type_error option" where
  "legendLoop host [] = ([], None)"
| "legendLoop host (e # es) =
     (case rerootEntry host e of
        (e', Some t) \<Rightarrow> (e' # es, Some t)
      | (e', None) \<Rightarrow> (case legendLoop host es of (es', r) \<Rightarrow> (e' # es', r)))"

text \<open>
  \<^verbatim>\<open>for (const project of projects!)\<close>: an array gives its entries; a string gives its
  characters, and the first one throws in \<^verbatim>\<open>path.basename\<close>; every other value is not
  iterable.
\<close>

definition rerootLegend :: "Host \<Rightarrow> json \<Rightarrow> json \<times> type_error option" where
  "rerootLegend host v =
     (case v of
        JArray es \<Rightarrow> (case legendLoop host es of (es', r) \<Rightarrow> (JArray es', r))
      | JString s \<Rightarrow> (if s = [] then (v, None) else (v, Some (PathNotString None)))
      | _ \<Rightarrow> (v, Some (NotIterable v)))"

text \<open>
  The \<^verbatim>\<open>try\<close> block: what is written to the error console and the value of \<open>projects\<close>
  after it (\<open>None\<close> is \<^verbatim>\<open>undefined\<close>). \<open>projects\<close> is assigned as soon as the text has
  parsed: an error thrown by the loop is reported, and the value stays.
\<close>

definition readLegend :: "Host \<Rightarrow> string \<Rightarrow> string list \<times> json option" where
  "readLegend host legendPath =
     (case readFile host legendPath of
        Inl e \<Rightarrow> ([''Error reading legend file: '' @ e], None)
      | Inr legendText \<Rightarrow>
          (case JSON_parse host legendText of
             Inl e \<Rightarrow> ([''Error reading legend file: '' @ e], None)
           | Inr projects \<Rightarrow>
               (case rerootLegend host projects of
                  (projects', None) \<Rightarrow> ([], Some projects')
                | (projects', Some t) \<Rightarrow>
                    ([''Error reading legend file: '' @ typeErrorMessage host t], Some projects'))))"

definition truthy_json :: "json \<Rightarrow> bool" where
  "truthy_json v =
     (case v of
        JNull \<Rightarrow> False
      | JBool b \<Rightarrow> b
      | JNumber n \<Rightarrow> n \<noteq> 0
      | JString s \<Rightarrow> s \<noteq> []
      | JArray es \<Rightarrow> True
      | JObject props \<Rightarrow> True)"

fun scanLoop :: "string \<Rightarrow> Dirent list \<Rightarrow> Project list \<Rightarrow> Project list" where
  "scanLoop dir [] projects = projects"
| "scanLoop dir (entry # entries) projects =
     (if \<not> dirent_isFile entry then scanLoop dir entries projects
      else
        (case match_trace (dirent_name entry) of
           Some m1 \<Rightarrow>
             scanLoop dir entries
               (projects @ [\<lparr>configFilePath = None,
                             tracePath = path_join [dir, dirent_name entry],
                             typesPath = path_join [dir, ''types'' @ m1]\<rparr>])
         | None \<Rightarrow> scanLoop dir entries projects))"

text \<open>
  The value handed to \<^verbatim>\<open>analyzeProjects\<close> has the declared type \<^verbatim>\<open>Project[]\<close>. The projects
  of the scan have it. A value of the legend has it when it is an array of objects whose
  trace path and types path are strings and whose label is a string or is missing.
\<close>

definition asProject :: "json \<Rightarrow> Project option" where
  "asProject e =
     (case e of
        JObject props \<Rightarrow>
          (case (map_of props ''tracePath'', map_of props ''typesPath'') of
             (Some (JString t), Some (JString y)) \<Rightarrow>
               (case map_of props ''configFilePath'' of
                  None \<Rightarrow> Some \<lparr>configFilePath = None, tracePath = t, typesPath = y\<rparr>
                | Some (JString c) \<Rightarrow> Some \<lparr>configFilePath = Some c, tracePath = t, typesPath = y\<rparr>
                | _ \<Rightarrow> None)
           | _ \<Rightarrow> None)
      | _ \<Rightarrow> None)"

definition asProjects :: "json \<Rightarrow> Project list option" where
  "asProjects v = (case v of JArray es \<Rightarrow> those (map asProject es) | _ \<Rightarrow> None)"

datatype discovered = Typed "Project list" | Untyped json

definition ofLegend :: "json \<Rightarrow> discovered" where
  "ofLegend v = (case asProjects v of Some ps \<Rightarrow> Typed ps | None \<Rightarrow> Untyped v)"

text \<open>
  \<^verbatim>\<open>main\<close> up to the call of \<^verbatim>\<open>analyzeProjects\<close>: the lines of the error console and the
  promise of the value of \<open>projects\<close>. A truthy value of the legend is kept, also an empty
  array and also after a reported error; \<^verbatim>\<open>undefined\<close> and the falsy values lead to the
  scan of the directory.
\<close>

definition scanDirectory :: "Host \<Rightarrow> error + discovered" where
  "scanDirectory host =
     (case readdir host (traceDir host) of
        Inl e \<Rightarrow> Inl e
      | Inr entries \<Rightarrow> Inr (Typed (scanLoop (traceDir host) entries [])))"

definition discoverProjects :: "Host \<Rightarrow> string list \<times> (error + discovered)" where
  "discoverProjects host =
     (let legendPath = path_join [traceDir host, ''legend.json''] in
      case isFile host legendPath of
        Inl e \<Rightarrow> ([], Inl e)
      | Inr legendExists \<Rightarrow>
          let (errs, projects) = (if legendExists then readLegend host legendPath else ([], None))
          in case projects of
               None \<Rightarrow> (errs, scanDirectory host)
             | Some v \<Rightarrow>
                 if truthy_json v then (errs, Inr (ofLegend v))
                 else (errs, scanDirectory host))"

text \<open>
  \<^verbatim>\<open>main\<close>. On a value that is not an array \<^verbatim>\<open>analyzeProjects\<close> throws at once, since
  \<^verbatim>\<open>projects.map\<close> is not a function. What the run does on an array with an entry that
  is not a \<^verbatim>\<open>Project\<close> is not modelled: \<open>None\<close>.
\<close>

definition main :: "Host \<Rightarrow> string list \<times> (error + string list \<times> int) option" where
  "main host =
     (case discoverProjects host of
        (errs, Inl e) \<Rightarrow> (errs, Some (Inl e))
      | (errs, Inr (Typed projects)) \<Rightarrow> (errs, Some (analyzeProjects host projects))
      | (errs, Inr (Untyped v)) \<Rightarrow>
          (case v of
             JArray es \<Rightarrow> (errs, None)
           | _ \<Rightarrow> (errs, Some (Inl (typeErrorMessage host (NotAFunction v))))))"

text \<open>
  The process: standard output, standard error and the exit code, after
  \<^verbatim>\<open>main().then(code => process.exit(code), err => ...)\<close>.
\<close>

record Process =
  logged :: "string list"
  errors :: "string list"
  exitStatus :: int

definition program :: "Host \<Rightarrow> Process option" where
  "program host =
     (case main host of
        (errs, None) \<Rightarrow> None
      | (errs, Some (Inr (out, code))) \<Rightarrow> Some \<lparr>logged = out, errors = errs, exitStatus = code\<rparr>
      | (errs, Some (Inl e)) \<Rightarrow>
          Some \<lparr>logged = [], errors = errs @ [''Internal error: '' @ e], exitStatus = 2\<rparr>)"

section \<open>Notions of the specification\<close>

subsection \<open>Outcome classification\<close>

text \<open>
  The three outcome kinds and the classification rules in their priority order:
  non-empty stderr or a termination signal is an error; else an exit code that is neither
  zero nor one is an error; else the exit code one is "nothing found"; else the result is
  a highlight, scored by the number that the host reads from the digits of the first
  millisecond marker of stdout, or by zero when there is none.
\<close>

datatype classification = Error | NothingFound | is_Highlight: Highlight score

definition classify :: "ProjectResult \<Rightarrow> classification" where
  "classify r =
     (if stderr r \<noteq> [] \<or> signal r \<noteq> None then Error
      else if exitCode r \<noteq> None \<and> exitCode r \<noteq> Some 0 \<and> exitCode r \<noteq> Some 1 then Error
      else if exitCode r = Some 1 then NothingFound
      else Highlight (case match_ms (stdout r) of Some ds \<Rightarrow> to_number ds | None \<Rightarrow> Finite 0))"

text \<open>The signal of a result has the type \<^verbatim>\<open>NodeJS.Signals\<close>, whose names are not empty.\<close>

definition well_typed :: "ProjectResult \<Rightarrow> bool" where
  "well_typed r = (signal r \<noteq> Some [])"

definition scored :: "ProjectResult \<Rightarrow> ScoredResult option" where
  "scored r = (case classify r of Highlight sc \<Rightarrow> Some (r, sc) | _ \<Rightarrow> None)"

definition highlights_of :: "ProjectResult list \<Rightarrow> ScoredResult list" where
  "highlights_of rs = List.map_filter scored rs"

definition errors_of :: "ProjectResult list \<Rightarrow> ProjectResult list" where
  "errors_of rs = filter (\<lambda>r. classify r = Error) rs"

text \<open>
  A millisecond marker with the digits \<open>ds\<close>: the words of the pattern
  \<^verbatim>\<open>\((\d+)[ ]*ms\)\<close>. \<open>marker_at s n ds\<close>: such a marker stands at position \<open>n\<close> of \<open>s\<close>.
\<close>

definition ms_marker :: "string \<Rightarrow> string \<Rightarrow> bool" where
  "ms_marker ds m =
     (ds \<noteq> [] \<and> list_all is_digit ds \<and>
      (\<exists>k. m = ''('' @ ds @ replicate k (CHR '' '') @ ''ms)''))"

definition marker_at :: "string \<Rightarrow> nat \<Rightarrow> string \<Rightarrow> bool" where
  "marker_at s n ds = (n \<le> length s \<and> (\<exists>m post. ms_marker ds m \<and> drop n s = m @ post))"

subsection \<open>Ranking\<close>

text \<open>
  A comparator is consistent, in the sense that the language standard requires of the
  argument of a sort, when it divides the values into classes of equal ones and orders
  these classes totally: being equal is reflexive, symmetric and transitive, and so are
  transitive being before and being after. \<open>ranks_before\<close>: a higher score first; on
  equal scores the trace path that the collation does not put after the other.
\<close>

definition consistent :: "('a \<Rightarrow> 'a \<Rightarrow> int) \<Rightarrow> bool" where
  "consistent cmp =
     ((\<forall>a. cmp a a = 0) \<and>
      (\<forall>a b. cmp a b = 0 \<longrightarrow> cmp b a = 0) \<and>
      (\<forall>a b c. cmp a b = 0 \<and> cmp b c = 0 \<longrightarrow> cmp a c = 0) \<and>
      (\<forall>a b c. cmp a b < 0 \<and> cmp b c < 0 \<longrightarrow> cmp a c < 0) \<and>
      (\<forall>a b c. 0 < cmp a b \<and> 0 < cmp b c \<longrightarrow> 0 < cmp a c))"

fun score_less :: "score \<Rightarrow> score \<Rightarrow> bool" where
  "score_less (Finite x) (Finite y) = (x < y)"
| "score_less (Finite x) Infinity = True"
| "score_less Infinity s = False"

definition ranks_before :: "(string \<Rightarrow> string \<Rightarrow> int) \<Rightarrow> ScoredResult \<Rightarrow> ScoredResult \<Rightarrow> bool" where
  "ranks_before lc a b =
     (score_less (snd b) (snd a) \<or>
      (snd a = snd b \<and> lc (tracePath (project (fst a))) (tracePath (project (fst b))) \<le> 0))"

text \<open>
  The lexicographic comparison of two strings by their bytes; on ASCII, by their code
  units.
\<close>

fun lexCompare :: "string \<Rightarrow> string \<Rightarrow> int" where
  "lexCompare [] [] = 0"
| "lexCompare [] (y # ys) = - 1"
| "lexCompare (x # xs) [] = 1"
| "lexCompare (x # xs) (y # ys) =
     (if (of_char x :: nat) < of_char y then - 1
      else if (of_char y :: nat) < of_char x then 1
      else lexCompare xs ys)"

text \<open>
  \<^verbatim>\<open>String.prototype.localeCompare\<close> in the root collation, on printable ASCII. Strings are
  compared first by the primary weights of their characters: the space, the punctuation
  and the symbols in the order of \<open>collation_order\<close>, then the digits, then the letters in
  alphabetical order, upper and lower case alike. Strings equal so far are compared by
  case, and lower case comes first. The weights of the other characters are not modelled;
  their bytes are put after the letters.
\<close>

definition collation_order :: string where
  "collation_order =
     map char_of
       [32, 95, 45, 44, 59, 58, 33, 63, 46, 39, 34, 40, 41, 91, 93, 123, 125, 64, 42, 47, 92,
        38, 35, 37, 96, 94, 43, 60, 61, 62, 124, 126, 36 :: nat]
     @ ''0123456789abcdefghijklmnopqrstuvwxyz''"

definition is_upper :: "char \<Rightarrow> bool" where
  "is_upper c = (65 \<le> (of_char c :: nat) \<and> (of_char c :: nat) \<le> 90)"

definition to_lower :: "char \<Rightarrow> char" where
  "to_lower c = (if is_upper c then char_of ((of_char c :: nat) + 32) else c)"

fun position :: "'a \<Rightarrow> 'a list \<Rightarrow> nat option" where
  "position x [] = None"
| "position x (y # ys) =
     (if x = y then Some 0 else (case position x ys of None \<Rightarrow> None | Some i \<Rightarrow> Some (Suc i)))"

definition primary_weight :: "char \<Rightarrow> nat" where
  "primary_weight c =
     (case position (to_lower c) collation_order of
        Some i \<Rightarrow> i
      | None \<Rightarrow> 100 + of_char c)"

definition case_weight :: "char \<Rightarrow> nat" where
  "case_weight c = (if is_upper c then 1 else 0)"

definition collation_key :: "string \<Rightarrow> nat list \<times> nat list" where
  "collation_key s = (map primary_weight s, map case_weight s)"

definition collate :: "string \<Rightarrow> string \<Rightarrow> int" where
  "collate a b =
     (if collation_key a < collation_key b then - 1
      else if collation_key a = collation_key b then 0
      else 1)"

subsection \<open>The printed report\<close>

text \<open>
  The report is a sequence of entries, each a block of logged lines, with one blank line
  between two blocks and none before the first. \<open>append_blocks first\<close> is what a
  sequence of blocks adds to a console on which nothing (\<open>first\<close>) or something has been
  logged.
\<close>

fun join_blocks :: "string list list \<Rightarrow> string list" where
  "join_blocks [] = []"
| "join_blocks [b] = b"
| "join_blocks (b # c # bs) = b @ [] # join_blocks (c # bs)"

fun append_blocks :: "bool \<Rightarrow> string list list \<Rightarrow> string list" where
  "append_blocks first [] = []"
| "append_blocks first (b # bs) = (if first then b else [] # b) @ append_blocks False bs"

text \<open>What one round of each printing loop logs after the separator.\<close>

definition highlightLines :: "nat \<Rightarrow> ScoredResult \<Rightarrow> string list" where
  "highlightLines n h =
     (if 1 < n \<or> truthy_opt_string (configFilePath (project (fst h)))
      then [''Analyzed '' @ getProjectDescription (project (fst h)), stdout (fst h)]
      else [stdout (fst h)])"

definition errorDetail :: "ProjectResult \<Rightarrow> string list" where
  "errorDetail e =
     (if truthy_string (stderr e) then [stderr e]
      else if truthy_opt_number (exitCode e) then
        [''Exited with code '' @ (case exitCode e of Some n \<Rightarrow> string_of_int n | None \<Rightarrow> [])]
      else if truthy_opt_string (signal e) then
        [''Terminated with signal '' @ (case signal e of Some s \<Rightarrow> s | None \<Rightarrow> [])]
      else [])"

definition errorLines :: "ProjectResult \<Rightarrow> string list" where
  "errorLines e = (''Error analyzing '' @ getProjectDescription (project e)) # errorDetail e"

text \<open>The trailing count, a block of its own when some project is not among the \<open>k\<close> printed ones.\<close>

definition nothingLines :: "nat \<Rightarrow> nat \<Rightarrow> string list list" where
  "nothingLines n k =
     (if k < n then
        [[''Found nothing in '' @ string_of_nat (n - k)
            @ (if k \<noteq> 0 then '' other'' else []) @ '' project(s)'']]
      else [])"

text \<open>A project carries a label when its \<open>configFilePath\<close> is present and not empty.\<close>

definition labelled :: "Project \<Rightarrow> bool" where
  "labelled p = (configFilePath p \<noteq> None \<and> configFilePath p \<noteq> Some [])"

subsection \<open>Files and invocations\<close>

text \<open>A path names an existing plain file when \<open>stat\<close> succeeds on it and says so.\<close>

definition fileExists :: "Host \<Rightarrow> string \<Rightarrow> bool" where
  "fileExists host path = (case stat host path of Inl _ \<Rightarrow> False | Inr st \<Rightarrow> stats_isFile st)"

text \<open>
  The legend is a file that is read and whose text parses to a value, or fails to parse.
\<close>

definition legendPath :: "Host \<Rightarrow> string" where
  "legendPath host = path_join [traceDir host, ''legend.json'']"

definition legendParses :: "Host \<Rightarrow> json \<Rightarrow> bool" where
  "legendParses host v =
     (fileExists host (legendPath host) \<and>
      (\<exists>text. readFile host (legendPath host) = Inr text \<and> JSON_parse host text = Inr v))"

definition legendParseFails :: "Host \<Rightarrow> error \<Rightarrow> bool" where
  "legendParseFails host msg =
     (fileExists host (legendPath host) \<and>
      (\<exists>text. readFile host (legendPath host) = Inr text \<and> JSON_parse host text = Inl msg))"

text \<open>A directory entry is a trace file when it is a plain file whose name matches.\<close>

definition isTraceFile :: "Dirent \<Rightarrow> bool" where
  "isTraceFile entry = (dirent_isFile entry \<and> match_trace (dirent_name entry) \<noteq> None)"

text \<open>The project that the scan derives from a trace file of the directory.\<close>

definition scannedProject :: "string \<Rightarrow> Dirent \<Rightarrow> Project" where
  "scannedProject dir entry =
     \<lparr>configFilePath = None,
      tracePath = path_join [dir, dirent_name entry],
      typesPath = path_join [dir, ''types'' @ drop 5 (dirent_name entry)]\<rparr>"

text \<open>The re-rooting of a project of the legend: each path by its base name alone.\<close>

definition rerootProject :: "Host \<Rightarrow> Project \<Rightarrow> Project" where
  "rerootProject host p =
     p\<lparr>tracePath := path_resolve (cwd host) [traceDir host, basename (tracePath p)],
       typesPath := path_resolve (cwd host) [traceDir host, basename (typesPath p)]\<rparr>"

text \<open>
  The score of a highlight: the double nearest to the number written by the digits of
  the first marker of stdout, or zero when stdout holds no marker.
\<close>

definition first_marker_score :: "string \<Rightarrow> score \<Rightarrow> bool" where
  "first_marker_score s sc =
     ((\<exists>n ds. marker_at s n ds \<and> (\<forall>j<n. \<forall>d. \<not> marker_at s j d)
          \<and> sc = round_double (decimal ds))
      \<or> ((\<forall>n ds. \<not> marker_at s n ds) \<and> sc = Finite 0))"

section \<open>Example runs\<close>

definition plainFile :: "error + Stats" where
  "plainFile = Inr \<lparr>stats_isFile = True\<rparr>"

definition projectA :: Project where
  "projectA = \<lparr>configFilePath = None,
                tracePath = ''/data/traces/trace-a.json'',
                typesPath = ''/data/traces/types-a.json''\<rparr>"

definition projectB :: Project where
  "projectB = \<lparr>configFilePath = None,
                tracePath = ''/data/traces/trace-b.json'',
                typesPath = ''/data/traces/types-b.json''\<rparr>"

definition projectC :: Project where
  "projectC = \<lparr>configFilePath = Some ''/src/app/tsconfig.json'',
                tracePath = ''/data/traces/trace-c.json'',
                typesPath = ''/data/traces/types-c.json''\<rparr>"

definition resultA :: ProjectResult where
  "resultA = \<lparr>project = projectA, stdout = ''Hot spots (120ms)'', stderr = [],
               exitCode = Some 0, signal = None\<rparr>"

definition resultB :: ProjectResult where
  "resultB = \<lparr>project = projectB, stdout = ''Check file (7ms) then (120  ms)'', stderr = [],
               exitCode = Some 0, signal = None\<rparr>"

definition resultB120 :: ProjectResult where
  "resultB120 = \<lparr>project = projectB, stdout = ''Hot spots (120 ms)'', stderr = [],
                  exitCode = Some 0, signal = None\<rparr>"

definition resultNothing :: ProjectResult where
  "resultNothing = \<lparr>project = projectC, stdout = [], stderr = [],
                     exitCode = Some 1, signal = None\<rparr>"

definition resultStderr :: ProjectResult where
  "resultStderr = \<lparr>project = projectC, stdout = [], stderr = ''out of memory'',
                    exitCode = Some 1, signal = None\<rparr>"

definition resultKilled :: ProjectResult where
  "resultKilled = \<lparr>project = projectB, stdout = [], stderr = [],
                    exitCode = None, signal = Some ''SIGKILL''\<rparr>"

definition projectBcap :: Project where
  "projectBcap = \<lparr>configFilePath = None,
                   tracePath = ''/data/traces/trace-B.json'',
                   typesPath = ''/data/traces/types-B.json''\<rparr>"

definition resultBcap :: ProjectResult where
  "resultBcap = \<lparr>project = projectBcap, stdout = ''Hot spots (120ms)'', stderr = [],
                  exitCode = Some 0, signal = None\<rparr>"

definition resultBig :: ProjectResult where
  "resultBig = \<lparr>project = projectA, stdout = ''Slow check (9007199254740993ms)'', stderr = [],
                 exitCode = Some 0, signal = None\<rparr>"

definition resultCode3 :: ProjectResult where
  "resultCode3 = \<lparr>project = projectA, stdout = ''partial (9ms)'', stderr = [],
                   exitCode = Some 3, signal = None\<rparr>"

text \<open>
  A directory with the traces \<open>a\<close> (with its types file) and \<open>b\<close> (without), no legend;
  the analyzer finds a hot spot in \<open>a\<close> and nothing elsewhere. The messages of the type
  errors are shortened.
\<close>

definition exampleHost :: Host where
  "exampleHost =
     \<lparr>cwd = ''/home/u'',
      traceDir = ''/data/traces'',
      forwardedOptions = [''--skipMillis'', ''100''],
      stat = (\<lambda>p. if p = ''/data/traces/trace-a.json'' \<or> p = ''/data/traces/types-a.json''
                       \<or> p = ''/data/traces/trace-b.json'' then plainFile
                    else Inl ''ENOENT''),
      readFile = (\<lambda>p. Inl ''ENOENT''),
      JSON_parse = (\<lambda>t. Inl ''Unexpected end of JSON input''),
      typeErrorMessage =
        (\<lambda>t. case t of
                NotIterable v \<Rightarrow> ''projects is not iterable''
              | PropertyOfNull key \<Rightarrow> ''Cannot read properties of null''
              | PathNotString v \<Rightarrow> ''The path argument must be of type string''
              | NotAFunction v \<Rightarrow> ''projects.map is not a function''),
      readdir = (\<lambda>d. Inr [\<lparr>dirent_name = ''trace-a.json'', dirent_isFile = True\<rparr>,
                          \<lparr>dirent_name = ''types-a.json'', dirent_isFile = True\<rparr>,
                          \<lparr>dirent_name = ''trace-b.json'', dirent_isFile = True\<rparr>]),
      localeCompare = collate,
      fork = (\<lambda>args. if take 1 args = [''/data/traces/trace-a.json'']
                      then \<lparr>child_stdout = ''Hot spots (120ms) '', child_stderr = [],
                            child_code = Some 0, child_signal = None\<rparr>
                      else \<lparr>child_stdout = [], child_stderr = [],
                            child_code = Some 1, child_signal = None\<rparr>)\<rparr>"

text \<open>The same host with a directory that holds no trace file.\<close>

definition emptyDirHost :: Host where
  "emptyDirHost =
     exampleHost\<lparr>readdir := (\<lambda>d. Inr [\<lparr>dirent_name = ''notes.txt'', dirent_isFile = True\<rparr>,
                                      \<lparr>dirent_name = ''trace-old.json'', dirent_isFile = False\<rparr>])\<rparr>"

text \<open>The same host with a legend file, whose text the parser refuses or accepts.\<close>

definition legendHost :: "(string \<Rightarrow> error + json) \<Rightarrow> Host" where
  "legendHost parse =
     exampleHost\<lparr>stat := (\<lambda>p. if p = ''/data/traces/legend.json'' then plainFile
                               else stat exampleHost p),
                 readFile := (\<lambda>p. Inr ''...''),
                 JSON_parse := parse\<rparr>"

definition brokenLegendHost :: Host where
  "brokenLegendHost = legendHost (\<lambda>t. Inl ''Unexpected end of JSON input'')"

definition emptyLegendHost :: Host where
  "emptyLegendHost = legendHost (\<lambda>t. Inr (JArray []))"

definition dotdotLegendHost :: Host where
  "dotdotLegendHost =
     legendHost (\<lambda>t. Inr (JArray [JObject [(''tracePath'', JString ''..''),
                                            (''typesPath'', JString ''types.json'')]]))"

text \<open>A legend that is the empty object, and a legend whose entry has no types path.\<close>

definition objectLegendHost :: Host where
  "objectLegendHost = legendHost (\<lambda>t. Inr (JObject []))"

definition halfLegendHost :: Host where
  "halfLegendHost =
     legendHost (\<lambda>t. Inr (JArray [JObject [(''tracePath'', JString ''/build/trace-a.json'')]]))"

section \<open>Properties\<close>

subsection \<open>The trace-file pattern\<close>

text \<open>
  A name matches exactly when it is \<^verbatim>\<open>trace\<close>, a middle part without line terminator and
  \<^verbatim>\<open>.json\<close>; the capture is the middle part with \<^verbatim>\<open>.json\<close>.
\<close>

lemma match_trace_iff:
  "match_trace name = Some m \<longleftrightarrow>
     (\<exists>mid. name = ''trace'' @ mid @ ''.json'' \<and> \<not> has_line_terminator mid
         \<and> m = mid @ ''.json'')"
proof
  assume a: "match_trace name = Some m"
  define rest where "rest = drop 5 name"
  define mid where "mid = take (length rest - 5) rest"
  from a have t: "take 5 name = ''trace''"
    and suf: "drop (length rest - 5) rest = ''.json''"
    and nl: "\<not> has_line_terminator mid" and m: "m = rest"
    by (simp_all add: match_trace_def Let_def rest_def mid_def split: if_splits)
  have r: "rest = mid @ ''.json''"
    unfolding mid_def suf [symmetric] by (rule append_take_drop_id [symmetric])
  have "name = take 5 name @ rest" unfolding rest_def by (rule append_take_drop_id [symmetric])
  then have "name = ''trace'' @ mid @ ''.json''" unfolding t r .
  with m r nl show "\<exists>mid. name = ''trace'' @ mid @ ''.json'' \<and> \<not> has_line_terminator mid
         \<and> m = mid @ ''.json''"
    by blast
next
  assume "\<exists>mid. name = ''trace'' @ mid @ ''.json'' \<and> \<not> has_line_terminator mid
         \<and> m = mid @ ''.json''"
  then obtain mid where n: "name = ''trace'' @ mid @ ''.json''"
    and nl: "\<not> has_line_terminator mid" and m: "m = mid @ ''.json''"
    by blast
  show "match_trace name = Some m"
    using nl by (simp add: match_trace_def n m Let_def)
qed


subsection \<open>The marker pattern\<close>

lemma not_digit_blank: "\<not> is_digit (CHR '' '')"
  by (simp add: is_digit_def)

lemma not_digit_m: "\<not> is_digit (CHR ''m'')"
  by (simp add: is_digit_def)

lemma takeWhile_digits:
  assumes "list_all is_digit ds"
  shows "takeWhile is_digit (ds @ replicate k (CHR '' '') @ ''ms)'' @ post) = ds"
proof -
  have all: "\<And>x. x \<in> set ds \<Longrightarrow> is_digit x" using assms by (simp add: list_all_iff)
  have stop: "takeWhile is_digit (replicate k (CHR '' '') @ ''ms)'' @ post) = []"
    by (cases k) (simp_all add: not_digit_blank not_digit_m)
  show ?thesis using all stop by (simp add: takeWhile_append2)
qed

lemma dropWhile_digits:
  assumes "list_all is_digit ds"
  shows "dropWhile is_digit (ds @ replicate k (CHR '' '') @ ''ms)'' @ post)
           = replicate k (CHR '' '') @ ''ms)'' @ post"
proof -
  have all: "\<And>x. x \<in> set ds \<Longrightarrow> is_digit x" using assms by (simp add: list_all_iff)
  have stop: "dropWhile is_digit (replicate k (CHR '' '') @ ''ms)'' @ post)
                = replicate k (CHR '' '') @ ''ms)'' @ post"
    by (cases k) (simp_all add: not_digit_blank not_digit_m)
  show ?thesis using all stop by (simp add: dropWhile_append2)
qed

lemma dropWhile_blanks:
  "dropWhile (\<lambda>b. b = CHR '' '') (replicate k (CHR '' '') @ ''ms)'' @ post) = ''ms)'' @ post"
  by (induction k) simp_all

lemma takeWhile_blanks_replicate:
  "takeWhile (\<lambda>b. b = CHR '' '') r
     = replicate (length (takeWhile (\<lambda>b. b = CHR '' '') r)) (CHR '' '')"
  by (induction r) simp_all

lemma take3_ms: "take 3 r = ''ms)'' \<Longrightarrow> r = ''ms)'' @ drop 3 r"
  by (metis append_take_drop_id)

text \<open>The anchored matcher accepts exactly the strings that start with a marker.\<close>

lemma match_ms_here_iff:
  "match_ms_here s = Some ds \<longleftrightarrow> (\<exists>m post. ms_marker ds m \<and> s = m @ post)"
proof
  assume m: "match_ms_here s = Some ds"
  then obtain rest where s: "s = CHR ''('' # rest"
    by (cases s) (auto simp: match_ms_here_def split: if_splits)
  let ?r1 = "dropWhile is_digit rest"
  let ?sp = "takeWhile (\<lambda>b. b = CHR '' '') ?r1"
  let ?r2 = "dropWhile (\<lambda>b. b = CHR '' '') ?r1"
  from m s have ds: "ds = takeWhile is_digit rest" and ne: "ds \<noteq> []"
    and t3: "take 3 ?r2 = ''ms)''"
    by (auto simp: match_ms_here_def Let_def split: if_splits)
  have dig: "list_all is_digit ds"
    unfolding ds list_all_iff by (auto dest: set_takeWhileD)
  have "rest = ds @ ?r1" unfolding ds by simp
  also have "?r1 = ?sp @ ?r2" by simp
  also have "?r2 = ''ms)'' @ drop 3 ?r2" using t3 by (rule take3_ms)
  finally have "s = (''('' @ ds @ replicate (length ?sp) (CHR '' '') @ ''ms)'') @ drop 3 ?r2"
    using s takeWhile_blanks_replicate [of ?r1] by simp
  then show "\<exists>m post. ms_marker ds m \<and> s = m @ post"
    using ne dig unfolding ms_marker_def by blast
next
  assume "\<exists>m post. ms_marker ds m \<and> s = m @ post"
  then obtain k post where ne: "ds \<noteq> []" and dig: "list_all is_digit ds"
    and s: "s = ''('' @ ds @ replicate k (CHR '' '') @ ''ms)'' @ post"
    unfolding ms_marker_def by auto
  define rest where "rest = ds @ replicate k (CHR '' '') @ ''ms)'' @ post"
  have s': "s = CHR ''('' # rest" unfolding s rest_def by simp
  have tw: "takeWhile is_digit rest = ds"
    unfolding rest_def by (rule takeWhile_digits [OF dig])
  have dw: "dropWhile is_digit rest = replicate k (CHR '' '') @ ''ms)'' @ post"
    unfolding rest_def by (rule dropWhile_digits [OF dig])
  have db: "dropWhile (\<lambda>b. b = CHR '' '') (dropWhile is_digit rest) = ''ms)'' @ post"
    unfolding dw by (rule dropWhile_blanks)
  show "match_ms_here s = Some ds"
    unfolding s' match_ms_here_def by (simp add: tw db ne Let_def)
qed

lemma match_ms_here_Nil: "match_ms_here [] = None"
  by (simp add: match_ms_here_def)

lemma marker_at_iff:
  "marker_at s n d \<longleftrightarrow> n \<le> length s \<and> match_ms_here (drop n s) = Some d"
  by (simp add: marker_at_def match_ms_here_iff)

lemma no_marker_at_iff:
  "(\<forall>d. \<not> marker_at s n d) \<longleftrightarrow> (n \<le> length s \<longrightarrow> match_ms_here (drop n s) = None)"
  by (cases "match_ms_here (drop n s)") (simp_all add: marker_at_iff)

text \<open>The search returns the match at the least position that has one.\<close>

lemma match_ms_Some_iff:
  "match_ms s = Some ds \<longleftrightarrow>
     (\<exists>n\<le>length s. match_ms_here (drop n s) = Some ds
        \<and> (\<forall>j<n. match_ms_here (drop j s) = None))"
proof (induction s)
  case Nil
  show ?case by (simp add: match_ms_here_Nil)
next
  case (Cons c cs)
  let ?P = "\<lambda>t n. match_ms_here (drop n t) = Some ds \<and> (\<forall>j<n. match_ms_here (drop j t) = None)"
  show ?case
  proof (cases "match_ms_here (c # cs)")
    case (Some ds')
    have "(\<exists>n\<le>length (c # cs). ?P (c # cs) n) \<longleftrightarrow> ds' = ds"
    proof
      assume "\<exists>n\<le>length (c # cs). ?P (c # cs) n"
      then obtain n where n: "match_ms_here (drop n (c # cs)) = Some ds"
        "\<forall>j<n. match_ms_here (drop j (c # cs)) = None"
        by blast
      have "n = 0"
      proof (rule ccontr)
        assume "n \<noteq> 0"
        then have "match_ms_here (drop 0 (c # cs)) = None" using n(2) by blast
        with Some show False by simp
      qed
      with n(1) Some show "ds' = ds" by simp
    next
      assume "ds' = ds"
      with Some have "?P (c # cs) 0" by simp
      then show "\<exists>n\<le>length (c # cs). ?P (c # cs) n" by blast
    qed
    moreover have "match_ms (c # cs) = Some ds'" using Some by simp
    ultimately show ?thesis by simp
  next
    case None
    have "(\<exists>n\<le>length (c # cs). ?P (c # cs) n) \<longleftrightarrow> (\<exists>n\<le>length cs. ?P cs n)"
      (is "?L \<longleftrightarrow> ?R")
    proof
      assume ?L
      then obtain n where n: "n \<le> length (c # cs)" "match_ms_here (drop n (c # cs)) = Some ds"
        "\<forall>j<n. match_ms_here (drop j (c # cs)) = None" by blast
      from n(2) None have "n \<noteq> 0" by (cases n) auto
      then obtain n' where n': "n = Suc n'" by (cases n) auto
      have "\<forall>j<n'. match_ms_here (drop j cs) = None"
      proof (intro allI impI)
        fix j assume "j < n'"
        then have "Suc j < n" using n' by simp
        with n(3) have "match_ms_here (drop (Suc j) (c # cs)) = None" by blast
        then show "match_ms_here (drop j cs) = None" by simp
      qed
      with n n' show ?R by auto
    next
      assume ?R
      then obtain n where n: "n \<le> length cs" "match_ms_here (drop n cs) = Some ds"
        "\<forall>j<n. match_ms_here (drop j cs) = None" by blast
      have "\<forall>j<Suc n. match_ms_here (drop j (c # cs)) = None"
      proof (intro allI impI)
        fix j assume j: "j < Suc n"
        show "match_ms_here (drop j (c # cs)) = None"
        proof (cases j)
          case 0
          with None show ?thesis by simp
        next
          case (Suc j')
          with j n(3) show ?thesis by simp
        qed
      qed
      with n(1,2) have "Suc n \<le> length (c # cs) \<and> ?P (c # cs) (Suc n)" by simp
      then show ?L by blast
    qed
    moreover have "match_ms (c # cs) = match_ms cs" using None by simp
    ultimately show ?thesis using Cons.IH by (simp only:)
  qed
qed

lemma match_ms_None_iff:
  "match_ms s = None \<longleftrightarrow> (\<forall>n\<le>length s. match_ms_here (drop n s) = None)"
proof (induction s)
  case Nil
  show ?case by (simp add: match_ms_here_Nil)
next
  case (Cons c cs)
  have split: "(\<forall>n\<le>length (c # cs). match_ms_here (drop n (c # cs)) = None)
     \<longleftrightarrow> match_ms_here (c # cs) = None \<and> (\<forall>n\<le>length cs. match_ms_here (drop n cs) = None)"
    (is "?L \<longleftrightarrow> ?A \<and> ?R")
  proof
    assume l: ?L
    have ?A using l [rule_format, of 0] by simp
    moreover have ?R
    proof (intro allI impI)
      fix n assume "n \<le> length cs"
      then show "match_ms_here (drop n cs) = None" using l [rule_format, of "Suc n"] by simp
    qed
    ultimately show "?A \<and> ?R" ..
  next
    assume ar: "?A \<and> ?R"
    show ?L
    proof (intro allI impI)
      fix n assume n: "n \<le> length (c # cs)"
      show "match_ms_here (drop n (c # cs)) = None"
        using ar n by (cases n) simp_all
    qed
  qed
  have "match_ms (c # cs) = None \<longleftrightarrow> match_ms_here (c # cs) = None \<and> match_ms cs = None"
    by (simp split: option.splits)
  then show ?case unfolding split using Cons.IH by (simp only:)
qed

lemma match_ms_first_marker:
  "match_ms s = Some ds \<longleftrightarrow> (\<exists>n. marker_at s n ds \<and> (\<forall>j<n. \<forall>d. \<not> marker_at s j d))"
proof
  assume "match_ms s = Some ds"
  then obtain n where n: "n \<le> length s" "match_ms_here (drop n s) = Some ds"
    and before: "\<forall>j<n. match_ms_here (drop j s) = None"
    unfolding match_ms_Some_iff by blast
  from n have "marker_at s n ds" by (simp add: marker_at_iff)
  moreover from before have "\<forall>j<n. \<forall>d. \<not> marker_at s j d"
    by (simp add: no_marker_at_iff)
  ultimately show "\<exists>n. marker_at s n ds \<and> (\<forall>j<n. \<forall>d. \<not> marker_at s j d)" by blast
next
  assume "\<exists>n. marker_at s n ds \<and> (\<forall>j<n. \<forall>d. \<not> marker_at s j d)"
  then obtain n where at: "marker_at s n ds" and before: "\<forall>j<n. \<forall>d. \<not> marker_at s j d"
    by blast
  from at have n: "n \<le> length s" "match_ms_here (drop n s) = Some ds"
    by (simp_all add: marker_at_iff)
  have "\<forall>j<n. match_ms_here (drop j s) = None"
  proof (intro allI impI)
    fix j assume j: "j < n"
    with before have "\<forall>d. \<not> marker_at s j d" by blast
    moreover from j n(1) have "j \<le> length s" by simp
    ultimately show "match_ms_here (drop j s) = None" by (simp add: no_marker_at_iff)
  qed
  with n show "match_ms s = Some ds" unfolding match_ms_Some_iff by blast
qed

lemma match_ms_no_marker:
  "match_ms s = None \<longleftrightarrow> (\<forall>n ds. \<not> marker_at s n ds)"
  unfolding match_ms_None_iff no_marker_at_iff ..

lemma score_is_first_marker:
  "first_marker_score s (case match_ms s of Some ds \<Rightarrow> to_number ds | None \<Rightarrow> Finite 0)"
proof (cases "match_ms s")
  case None
  then have "\<forall>n ds. \<not> marker_at s n ds" using match_ms_no_marker [of s] by blast
  with None show ?thesis by (simp add: first_marker_score_def)
next
  case (Some ds)
  then obtain n where "marker_at s n ds" "\<forall>j<n. \<forall>d. \<not> marker_at s j d"
    unfolding match_ms_first_marker by blast
  then have "\<exists>n d. marker_at s n d \<and> (\<forall>j<n. \<forall>d. \<not> marker_at s j d)
      \<and> round_double (decimal ds) = round_double (decimal d)"
    by blast
  with Some show ?thesis by (simp add: first_marker_score_def to_number_def)
qed

subsection \<open>The doubles\<close>

lemma bit_length_bounds:
  "0 < n \<Longrightarrow> 2 ^ (bit_length n - 1) \<le> n \<and> n < 2 ^ bit_length n"
proof (induction n rule: bit_length.induct)
  case (1 n)
  show ?case
  proof (cases "n div 2 = 0")
    case True
    with "1.prems" have "n = 1" by presburger
    then show ?thesis by (simp add: bit_length.simps)
  next
    case False
    then have pos: "0 < n div 2" by simp
    from "1.prems" have bl: "bit_length n = Suc (bit_length (n div 2))"
      by (simp add: bit_length.simps [of n])
    from "1.IH" [OF _ pos] "1.prems"
    have lo: "2 ^ (bit_length (n div 2) - 1) \<le> n div 2"
      and hi: "n div 2 < 2 ^ bit_length (n div 2)" by simp_all
    from pos have "0 < bit_length (n div 2)" by (simp add: bit_length.simps [of "n div 2"])
    then have "(2::nat) ^ bit_length (n div 2) = 2 * 2 ^ (bit_length (n div 2) - 1)"
      by (cases "bit_length (n div 2)") simp_all
    with lo have "2 ^ bit_length (n div 2) \<le> 2 * (n div 2)" by simp
    also have "\<dots> \<le> n" by simp
    finally have l: "2 ^ (bit_length n - 1) \<le> n" by (simp add: bl)
    from hi have "n < 2 * 2 ^ bit_length (n div 2)" by presburger
    then have "n < 2 ^ bit_length n" by (simp add: bl)
    with l show ?thesis ..
  qed
qed

lemma round_double_exact: "n \<le> 2 ^ 53 \<Longrightarrow> round_double n = Finite n"
proof (cases "n < 2 ^ 53")
  case True
  then show ?thesis by (simp add: round_double_def)
next
  case False
  assume "n \<le> 2 ^ 53"
  with False have n: "n = 9007199254740992" by simp
  have "bit_length 9007199254740992 = 54" by (simp add: bit_length.simps)
  then show ?thesis unfolding n by (simp add: round_double_def Let_def)
qed

lemma round_double_zero: "round_double 0 = Finite 0"
  by (simp add: round_double_def)

lemma round_double_positive:
  assumes "0 < n" and "round_double n = Finite m"
  shows "0 < m"
proof (cases "n < 2 ^ 53")
  case True
  with assms show ?thesis by (simp add: round_double_def)
next
  case False
  define e where "e = bit_length n - 53"
  from assms(1) have lo: "2 ^ (bit_length n - 1) \<le> n" and hi: "n < 2 ^ bit_length n"
    using bit_length_bounds by blast+
  have "(2::nat) ^ e \<le> 2 ^ (bit_length n - 1)"
    unfolding e_def by (rule power_increasing) simp_all
  from this lo have "2 ^ e \<le> n" by (rule order_trans)
  then have q: "0 < n div 2 ^ e" by (simp add: div_greater_zero_iff)
  define m' where "m' = (if 2 ^ (e - 1) < n mod 2 ^ e \<or> (n mod 2 ^ e = 2 ^ (e - 1) \<and> odd (n div 2 ^ e))
      then n div 2 ^ e + 1 else n div 2 ^ e) * 2 ^ e"
  have "round_double n = (if 2 ^ 1024 \<le> m' then Infinity else Finite m')"
    using False by (simp add: round_double_def Let_def e_def m'_def)
  with assms(2) have "m = m'" by (simp split: if_splits)
  moreover have "0 < m'" unfolding m'_def using q by simp
  ultimately show ?thesis by simp
qed

subsection \<open>The classification loop\<close>

lemma highlights_of_Nil: "highlights_of [] = []"
  by (simp add: highlights_of_def)

lemma highlights_of_Cons:
  "highlights_of (r # rs) =
     (case scored r of Some h \<Rightarrow> h # highlights_of rs | None \<Rightarrow> highlights_of rs)"
  by (simp add: highlights_of_def split: option.splits)

lemma truthy_signal: "well_typed r \<Longrightarrow> truthy_opt_string (signal r) = (signal r \<noteq> None)"
  by (cases "signal r") (simp_all add: well_typed_def truthy_opt_string_def truthy_string_def)

lemma truthy_exit: "truthy_opt_number c = (c \<noteq> None \<and> c \<noteq> Some 0)"
  by (cases c) (simp_all add: truthy_opt_number_def)

lemma classifyLoop_acc:
  "list_all well_typed rs \<Longrightarrow>
     classifyLoop rs hs es = (hs @ highlights_of rs, es @ errors_of rs)"
proof (induction rs arbitrary: hs es)
  case Nil
  show ?case by (simp add: highlights_of_Nil errors_of_def)
next
  case (Cons r rs)
  from Cons.prems have wt: "well_typed r" and rest: "list_all well_typed rs" by simp_all
  note IH = Cons.IH [OF rest]
  show ?case
    by (simp add: IH truthy_signal [OF wt] truthy_exit truthy_string_def
        highlights_of_Cons errors_of_def scored_def classify_def Let_def)
qed

lemma highlight_score:
  assumes "classify r = Highlight sc"
  shows "first_marker_score (stdout r) sc"
proof -
  from assms have "sc = (case match_ms (stdout r) of Some ds \<Rightarrow> to_number ds | None \<Rightarrow> Finite 0)"
    by (simp add: classify_def split: if_splits)
  then show ?thesis by (simp add: score_is_first_marker)
qed

text \<open>
  C2, as the source has it. Every result falls into exactly one of the three classes, by
  the priority rules of \<open>classify\<close>: the loop collects the highlights, each with its
  score, and the errors, both in the order of the results, and leaves out the results
  with nothing found. The score of a highlight is the double nearest to the number
  written by the digits of the first millisecond marker of its stdout, which is that
  number itself up to \<open>2 ^ 53\<close>, and zero when stdout holds no marker.
\<close>

theorem classification_rules:
  assumes "list_all well_typed results"
  shows "classifyLoop results [] [] = (highlights_of results, errors_of results)
         \<and> (\<forall>r\<in>set results. \<forall>sc. classify r = Highlight sc \<longrightarrow> first_marker_score (stdout r) sc)
         \<and> (\<forall>n\<le>2 ^ 53. round_double n = Finite n)"
  using classifyLoop_acc [OF assms, of "[]" "[]"] highlight_score round_double_exact by simp

theorem classification_rules_witness:
  "list_all well_typed [resultA, resultNothing, resultStderr, resultB, resultKilled, resultCode3]
   \<and> classifyLoop [resultA, resultNothing, resultStderr, resultB, resultKilled, resultCode3] [] []
       = ([(resultA, Finite 120), (resultB, Finite 7)], [resultStderr, resultKilled, resultCode3])
   \<and> first_marker_score (stdout resultB) (Finite 7)"
proof -
  let ?rs = "[resultA, resultNothing, resultStderr, resultB, resultKilled, resultCode3]"
  have wt: "list_all well_typed ?rs"
    by (simp add: well_typed_def resultA_def resultNothing_def resultStderr_def resultB_def
        resultKilled_def resultCode3_def)
  have hs: "highlights_of ?rs = [(resultA, Finite 120), (resultB, Finite 7)]"
    by code_simp
  have es: "errors_of ?rs = [resultStderr, resultKilled, resultCode3]"
    by code_simp
  have cb: "classify resultB = Highlight (Finite 7)"
    by code_simp
  from classification_rules [OF wt] hs es cb wt show ?thesis by simp
qed

text \<open>
  C2, as the claim has it, fails on a marker above \<open>2 ^ 53\<close>: the first marker of stdout
  writes 9007199254740993, and the score of the highlight is 9007199254740992.
\<close>

theorem classification_rules_counterexample:
  "match_ms (stdout resultBig) = Some ''9007199254740993''
   \<and> decimal ''9007199254740993'' = 9007199254740993
   \<and> classifyLoop [resultBig] [] [] = ([(resultBig, Finite 9007199254740992)], [])
   \<and> Finite 9007199254740992 \<noteq> Finite (decimal ''9007199254740993'')"
proof -
  have m: "match_ms (stdout resultBig) = Some ''9007199254740993''"
    by code_simp
  have d: "decimal ''9007199254740993'' = 9007199254740993"
    by (simp add: decimal_def digit_val_def)
  have b: "bit_length 9007199254740993 = 54"
    by (simp add: bit_length.simps)
  have r: "round_double 9007199254740993 = Finite 9007199254740992"
    by (simp add: round_double_def b Let_def)
  have s: "stderr resultBig = []" "signal resultBig = None" "exitCode resultBig = Some 0"
    by (simp_all add: resultBig_def)
  have "classifyLoop [resultBig] [] [] = ([(resultBig, Finite 9007199254740992)], [])"
    by (simp add: s m d r to_number_def truthy_string_def truthy_opt_string_def
        truthy_opt_number_def)
  with m d show ?thesis by simp
qed


subsection \<open>The stable sort\<close>

lemma mset_insert_by: "mset (insert_by cmp x xs) = add_mset x (mset xs)"
  by (induction xs) simp_all

lemma mset_array_sort: "mset (array_sort cmp xs) = mset xs"
  by (induction xs) (simp_all add: array_sort_def mset_insert_by)

lemma set_insert_by: "set (insert_by cmp x xs) = insert x (set xs)"
  by (induction xs) auto

lemma length_array_sort: "length (array_sort cmp xs) = length xs"
  using mset_array_sort [of cmp xs] by (metis size_mset)

lemma sorted_insert_by:
  assumes total: "\<And>a b. not_after (cmp a b) \<or> not_after (cmp b a)"
    and trans: "\<And>a b c. not_after (cmp a b) \<Longrightarrow> not_after (cmp b c) \<Longrightarrow> not_after (cmp a c)"
    and sorted: "sorted_wrt (\<lambda>a b. not_after (cmp a b)) xs"
  shows "sorted_wrt (\<lambda>a b. not_after (cmp a b)) (insert_by cmp x xs)"
  using sorted
proof (induction xs)
  case Nil
  show ?case by simp
next
  case (Cons y ys)
  show ?case
  proof (cases "not_after (cmp x y)")
    case True
    with Cons.prems trans show ?thesis by auto
  next
    case False
    with total [of x y] have "not_after (cmp y x)" by simp
    with False Cons show ?thesis by (auto simp: set_insert_by)
  qed
qed

lemma sorted_array_sort:
  assumes total: "\<And>a b. not_after (cmp a b) \<or> not_after (cmp b a)"
    and trans: "\<And>a b c. not_after (cmp a b) \<Longrightarrow> not_after (cmp b c) \<Longrightarrow> not_after (cmp a c)"
  shows "sorted_wrt (\<lambda>a b. not_after (cmp a b)) (array_sort cmp xs)"
proof (induction xs)
  case Nil
  show ?case by (simp add: array_sort_def)
next
  case (Cons x xs)
  have "array_sort cmp (x # xs) = insert_by cmp x (array_sort cmp xs)"
    by (simp add: array_sort_def)
  with sorted_insert_by [of cmp "array_sort cmp xs" x, OF total trans Cons.IH]
  show ?case by simp
qed

subsection \<open>The comparator\<close>

lemma score_less_irrefl: "\<not> score_less a a"
  by (cases a) simp_all

lemma score_less_trans: "score_less a b \<Longrightarrow> score_less b c \<Longrightarrow> score_less a c"
  by (cases a; cases b; cases c) simp_all

lemma score_less_linear: "score_less a b \<or> a = b \<or> score_less b a"
  by (cases a; cases b) auto

lemma score_less_asym: "score_less a b \<Longrightarrow> \<not> score_less b a"
  by (cases a; cases b) simp_all

text \<open>
  The difference of two scores is truthy exactly when they differ, and then its sign
  tells which is the greater: the difference of two distinct doubles does not round to
  zero. Two infinite scores give \<^verbatim>\<open>NaN\<close>, which is falsy, and are a tie as well.
\<close>

lemma score_minus_cases:
  "(score_less a b \<and> truthy_number (score_minus b a) \<and> \<not> not_after (score_minus b a))
   \<or> (a = b \<and> \<not> truthy_number (score_minus b a))
   \<or> (score_less b a \<and> truthy_number (score_minus b a) \<and> not_after (score_minus b a))"
proof (cases a)
  case Infinity
  then show ?thesis
    by (cases b) (simp_all add: score_minus_def truthy_number_def not_after_def)
next
  case (Finite y)
  note a = this
  show ?thesis
  proof (cases b)
    case Infinity
    with a show ?thesis by (simp add: score_minus_def truthy_number_def not_after_def)
  next
    case (Finite x)
    note b = this
    consider "y < x" | "x = y" | "x < y" by linarith
    then show ?thesis
    proof cases
      case 1
      then have pos: "0 < x - y" by simp
      show ?thesis
      proof (cases "round_double (x - y)")
        case Infinity
        with 1 a b show ?thesis by (simp add: score_minus_def truthy_number_def not_after_def)
      next
        case (Finite m)
        from round_double_positive [OF pos Finite] have "0 < m" .
        with 1 a b Finite show ?thesis
          by (simp add: score_minus_def truthy_number_def not_after_def)
      qed
    next
      case 2
      with a b show ?thesis
        by (simp add: score_minus_def round_double_zero truthy_number_def)
    next
      case 3
      then have pos: "0 < y - x" by simp
      show ?thesis
      proof (cases "round_double (y - x)")
        case Infinity
        with 3 a b show ?thesis by (simp add: score_minus_def truthy_number_def not_after_def)
      next
        case (Finite m)
        from round_double_positive [OF pos Finite] have "0 < m" .
        with 3 a b Finite show ?thesis
          by (simp add: score_minus_def truthy_number_def not_after_def)
      qed
    qed
  qed
qed

lemma compareHighlights_not_after:
  "not_after (compareHighlights lc a b) = ranks_before lc a b"
  using score_minus_cases [of "snd a" "snd b"] score_less_irrefl [of "snd a"]
    score_less_asym [of "snd a" "snd b"]
  by (auto simp: compareHighlights_def ranks_before_def Let_def not_after_def)

text \<open>
  Under a consistent comparator "not after" is total and transitive.
\<close>

lemma consistent_antisym:
  assumes "consistent cmp" and "0 < cmp a b"
  shows "cmp b a < 0"
proof (rule ccontr)
  assume "\<not> cmp b a < 0"
  then consider "cmp b a = 0" | "0 < cmp b a" by linarith
  then show False
  proof cases
    case 1
    with assms(1) have "cmp a b = 0" unfolding consistent_def by blast
    with assms(2) show False by simp
  next
    case 2
    with assms have "0 < cmp a a" unfolding consistent_def by blast
    moreover from assms(1) have "cmp a a = 0" unfolding consistent_def by blast
    ultimately show False by simp
  qed
qed

lemma consistent_total:
  assumes "consistent cmp"
  shows "cmp a b \<le> 0 \<or> cmp b a \<le> 0"
  using consistent_antisym [OF assms, of a b] by linarith

lemma consistent_trans:
  assumes c: "consistent cmp" and ab: "cmp a b \<le> 0" and bc: "cmp b c \<le> 0"
  shows "cmp a c \<le> 0"
proof (rule ccontr)
  assume "\<not> cmp a c \<le> 0"
  then have ac: "0 < cmp a c" by simp
  then have ca: "cmp c a < 0" by (rule consistent_antisym [OF c])
  have sym: "\<And>x y. cmp x y = 0 \<Longrightarrow> cmp y x = 0"
    and eq: "\<And>x y z. cmp x y = 0 \<Longrightarrow> cmp y z = 0 \<Longrightarrow> cmp x z = 0"
    and lt: "\<And>x y z. cmp x y < 0 \<Longrightarrow> cmp y z < 0 \<Longrightarrow> cmp x z < 0"
    and gt: "\<And>x y z. 0 < cmp x y \<Longrightarrow> 0 < cmp y z \<Longrightarrow> 0 < cmp x z"
    and refl: "\<And>x. cmp x x = 0"
    using c unfolding consistent_def by blast+
  show False
  proof (cases "cmp a b = 0")
    case True
    note ab0 = this
    show False
    proof (cases "cmp b c = 0")
      case True
      from eq [OF ab0 True] ac show False by simp
    next
      case False
      with bc have "cmp b c < 0" by simp
      from lt [OF this ca] have "cmp b a < 0" .
      moreover from sym [OF ab0] have "cmp b a = 0" .
      ultimately show False by simp
    qed
  next
    case False
    with ab have ab': "cmp a b < 0" by simp
    show False
    proof (cases "cmp b c = 0")
      case True
      from lt [OF ca ab'] have "cmp c b < 0" .
      moreover from sym [OF True] have "cmp c b = 0" .
      ultimately show False by simp
    next
      case False
      with bc have "cmp b c < 0" by simp
      from lt [OF ab' this] ac show False by simp
    qed
  qed
qed

lemma ranks_before_total:
  assumes "consistent lc"
  shows "ranks_before lc a b \<or> ranks_before lc b a"
proof -
  have total: "\<And>a b. lc a b \<le> 0 \<or> lc b a \<le> 0"
    by (rule consistent_total [OF assms])
  from total [of "tracePath (project (fst a))" "tracePath (project (fst b))"]
    score_less_linear [of "snd a" "snd b"]
  show ?thesis unfolding ranks_before_def by auto
qed

lemma ranks_before_trans:
  assumes "consistent lc" and ab: "ranks_before lc a b" and bc: "ranks_before lc b c"
  shows "ranks_before lc a c"
proof -
  have trans: "\<And>a b c. lc a b \<le> 0 \<Longrightarrow> lc b c \<le> 0 \<Longrightarrow> lc a c \<le> 0"
    by (rule consistent_trans [OF assms(1)])
  show ?thesis
  proof (cases "score_less (snd b) (snd a)")
    case True
    note ba = this
    show ?thesis
    proof (cases "score_less (snd c) (snd b)")
      case True
      from score_less_trans [OF True ba] show ?thesis by (simp add: ranks_before_def)
    next
      case False
      with bc have "snd b = snd c" by (simp add: ranks_before_def)
      with ba show ?thesis by (simp add: ranks_before_def)
    qed
  next
    case False
    with ab have eq: "snd a = snd b"
      and l1: "lc (tracePath (project (fst a))) (tracePath (project (fst b))) \<le> 0"
      by (simp_all add: ranks_before_def)
    show ?thesis
    proof (cases "score_less (snd c) (snd b)")
      case True
      with eq show ?thesis by (simp add: ranks_before_def)
    next
      case False
      with bc have eq2: "snd b = snd c"
        and l2: "lc (tracePath (project (fst b))) (tracePath (project (fst c))) \<le> 0"
        by (simp_all add: ranks_before_def)
      from trans [OF l1 l2] eq eq2 show ?thesis by (simp add: ranks_before_def)
    qed
  qed
qed

lemma ranked_highlights:
  assumes "consistent lc"
  shows "sorted_wrt (ranks_before lc) (array_sort (compareHighlights lc) hs)"
proof -
  have "sorted_wrt (\<lambda>a b. not_after (compareHighlights lc a b))
      (array_sort (compareHighlights lc) hs)"
  proof (rule sorted_array_sort)
    fix a b
    show "not_after (compareHighlights lc a b) \<or> not_after (compareHighlights lc b a)"
      unfolding compareHighlights_not_after by (rule ranks_before_total [OF assms])
  next
    fix a b c
    assume "not_after (compareHighlights lc a b)" and "not_after (compareHighlights lc b c)"
    then show "not_after (compareHighlights lc a c)"
      unfolding compareHighlights_not_after by (rule ranks_before_trans [OF assms])
  qed
  then show ?thesis by (simp add: compareHighlights_not_after)
qed

subsection \<open>The collations\<close>

lemma collate_sign:
  "(collate a b < 0) = (collation_key a < collation_key b)"
  "(collate a b = 0) = (collation_key a = collation_key b)"
  "(0 < collate a b) = (collation_key b < collation_key a)"
  by (auto simp: collate_def)

lemma consistent_collate: "consistent collate"
  unfolding consistent_def collate_sign by auto

subsection \<open>The printing loops\<close>

lemma join_blocks_append_blocks: "join_blocks bs = append_blocks True bs"
proof -
  have "join_blocks (b # bs) = b @ append_blocks False bs" for b bs
    by (induction bs arbitrary: b) simp_all
  then show ?thesis by (cases bs) simp_all
qed

lemma append_blocks_append:
  "append_blocks first (xs @ ys) = append_blocks first xs @ append_blocks (first \<and> xs = []) ys"
  by (induction xs arbitrary: first) simp_all

lemma printHighlights_acc:
  "printHighlights n hs first out =
     (first \<and> hs = [], out @ append_blocks first (map (highlightLines n) hs))"
  by (induction hs arbitrary: first out) (simp_all add: Let_def highlightLines_def)

lemma printErrors_acc:
  "printErrors es first out =
     (first \<and> es = [], out @ append_blocks first (map errorLines es))"
  by (induction es arbitrary: first out) (simp_all add: Let_def errorLines_def errorDetail_def)

text \<open>
  The report as a whole: the blocks of the ranked highlights, then the blocks of the
  errors, then the trailing count; and the status.
\<close>

lemma reportResults_blocks:
  assumes "list_all well_typed results"
  shows "reportResults lc n results =
     (join_blocks
        (map (highlightLines n) (array_sort (compareHighlights lc) (highlights_of results))
         @ map errorLines (errors_of results)
         @ nothingLines n (length (highlights_of results) + length (errors_of results))),
      if errors_of results \<noteq> [] then 2 else if highlights_of results \<noteq> [] then 0 else 1)"
proof -
  have loop: "classifyLoop results [] [] = (highlights_of results, errors_of results)"
    using classifyLoop_acc [OF assms, of "[]" "[]"] by simp
  have nonempty: "array_sort (compareHighlights lc) (highlights_of results) = []
      \<longleftrightarrow> highlights_of results = []"
    using length_array_sort [of "compareHighlights lc" "highlights_of results"]
    by (metis length_0_conv)
  show ?thesis
    unfolding reportResults_def loop
    by (simp add: Let_def printHighlights_acc printErrors_acc join_blocks_append_blocks
        append_blocks_append nothingLines_def length_array_sort nonempty)
qed

lemma errors_of_empty: "errors_of rs = [] \<longleftrightarrow> \<not> list_ex (\<lambda>r. classify r = Error) rs"
  by (simp add: errors_of_def filter_empty_conv list_ex_iff)

lemma highlights_of_empty:
  "highlights_of rs = [] \<longleftrightarrow> \<not> list_ex (\<lambda>r. is_Highlight (classify r)) rs"
proof (induction rs)
  case Nil
  show ?case by (simp add: highlights_of_Nil)
next
  case (Cons r rs)
  then show ?case
    by (cases "classify r") (simp_all add: highlights_of_Cons scored_def)
qed

text \<open>
  C1. The status returned by the reporter is 2 when some result is classified as an
  error, otherwise 0 when some result is classified as a highlight, otherwise 1.
\<close>

theorem status_code:
  assumes "list_all well_typed results"
  shows "snd (reportResults lc n results) =
     (if list_ex (\<lambda>r. classify r = Error) results then 2
      else if list_ex (\<lambda>r. is_Highlight (classify r)) results then 0
      else 1)"
  by (simp add: reportResults_blocks [OF assms] errors_of_empty highlights_of_empty)

theorem status_code_witness:
  "list_all well_typed [resultA, resultNothing, resultKilled]
   \<and> snd (reportResults collate 3 [resultA, resultNothing, resultKilled]) = 2
   \<and> list_all well_typed [resultNothing, resultA]
   \<and> snd (reportResults collate 2 [resultNothing, resultA]) = 0
   \<and> snd (reportResults collate 1 [resultNothing]) = 1"
proof -
  have wt1: "list_all well_typed [resultA, resultNothing, resultKilled]"
    and wt2: "list_all well_typed [resultNothing, resultA]"
    and wt3: "list_all well_typed [resultNothing]"
    by (simp_all add: well_typed_def resultA_def resultNothing_def resultKilled_def)
  have c: "classify resultA = Highlight (Finite 120)" "classify resultNothing = NothingFound"
    "classify resultKilled = Error"
    by code_simp+
  from status_code [OF wt1, of collate 3] c
  have 1: "snd (reportResults collate 3 [resultA, resultNothing, resultKilled]) = 2" by simp
  from status_code [OF wt2, of collate 2] c
  have 2: "snd (reportResults collate 2 [resultNothing, resultA]) = 0" by simp
  from status_code [OF wt3, of collate 1] c
  have 3: "snd (reportResults collate 1 [resultNothing]) = 1" by simp
  from wt1 wt2 1 2 3 show ?thesis by simp
qed

text \<open>
  C3, as the source has it. The report lists the highlight entries first, ranked by
  descending score, equal scores by ascending trace path in the collation of the host,
  which is \<^verbatim>\<open>String.prototype.localeCompare\<close>; the ranked entries are the highlights, each
  once. The error entries follow all of them, in the order in which the errors were met.
  The collation is assumed to be a consistent comparator, as the sort needs it; \<open>collate\<close>
  is one.
\<close>

theorem report_order:
  assumes "list_all well_typed results" and "consistent lc"
  shows "\<exists>ranked.
           mset ranked = mset (highlights_of results)
           \<and> sorted_wrt (ranks_before lc) ranked
           \<and> fst (reportResults lc n results) =
               join_blocks
                 (map (highlightLines n) ranked
                  @ map errorLines (errors_of results)
                  @ nothingLines n (length ranked + length (errors_of results)))"
proof -
  let ?ranked = "array_sort (compareHighlights lc) (highlights_of results)"
  have "mset ?ranked = mset (highlights_of results)" by (rule mset_array_sort)
  moreover have "sorted_wrt (ranks_before lc) ?ranked" by (rule ranked_highlights [OF assms(2)])
  moreover have "fst (reportResults lc n results) =
      join_blocks (map (highlightLines n) ?ranked @ map errorLines (errors_of results)
        @ nothingLines n (length ?ranked + length (errors_of results)))"
    by (simp add: reportResults_blocks [OF assms(1)] length_array_sort)
  ultimately show ?thesis by blast
qed

theorem report_order_witness:
  "list_all well_typed [resultStderr, resultB120, resultNothing, resultBcap, resultB, resultA, resultKilled]
   \<and> consistent collate
   \<and> (\<exists>ranked.
         mset ranked
           = mset (highlights_of [resultStderr, resultB120, resultNothing, resultBcap, resultB, resultA, resultKilled])
         \<and> sorted_wrt (ranks_before collate) ranked
         \<and> fst (reportResults collate 7
                  [resultStderr, resultB120, resultNothing, resultBcap, resultB, resultA, resultKilled]) =
             join_blocks
               (map (highlightLines 7) ranked
                @ map errorLines
                    (errors_of [resultStderr, resultB120, resultNothing, resultBcap, resultB, resultA, resultKilled])
                @ nothingLines 7 (length ranked
                    + length (errors_of
                        [resultStderr, resultB120, resultNothing, resultBcap, resultB, resultA, resultKilled]))))
   \<and> fst (reportResults collate 7
            [resultStderr, resultB120, resultNothing, resultBcap, resultB, resultA, resultKilled]) =
       [''Analyzed trace-a.json'', ''Hot spots (120ms)'', [],
        ''Analyzed trace-b.json'', ''Hot spots (120 ms)'', [],
        ''Analyzed trace-B.json'', ''Hot spots (120ms)'', [],
        ''Analyzed trace-b.json'', ''Check file (7ms) then (120  ms)'', [],
        ''Error analyzing /src/app/tsconfig.json (trace-c.json)'', ''out of memory'', [],
        ''Error analyzing trace-b.json'', ''Terminated with signal SIGKILL'', [],
        ''Found nothing in 1 other project(s)'']"
proof -
  let ?rs = "[resultStderr, resultB120, resultNothing, resultBcap, resultB, resultA, resultKilled]"
  have wt: "list_all well_typed ?rs"
    by (simp add: well_typed_def resultStderr_def resultB120_def resultNothing_def resultA_def
        resultKilled_def resultBcap_def resultB_def)
  have out: "fst (reportResults collate 7 ?rs) =
       [''Analyzed trace-a.json'', ''Hot spots (120ms)'', [],
        ''Analyzed trace-b.json'', ''Hot spots (120 ms)'', [],
        ''Analyzed trace-B.json'', ''Hot spots (120ms)'', [],
        ''Analyzed trace-b.json'', ''Check file (7ms) then (120  ms)'', [],
        ''Error analyzing /src/app/tsconfig.json (trace-c.json)'', ''out of memory'', [],
        ''Error analyzing trace-b.json'', ''Terminated with signal SIGKILL'', [],
        ''Found nothing in 1 other project(s)'']"
    by code_simp
  from report_order [OF wt consistent_collate, of 7] wt consistent_collate out
  show ?thesis by simp
qed

text \<open>
  C3, as the claim has it, fails on two highlights with the same score whose trace paths
  differ in the case of a letter: \<^verbatim>\<open>trace-B.json\<close> is lexicographically before
  \<^verbatim>\<open>trace-a.json\<close>, and the report lists \<^verbatim>\<open>trace-a.json\<close> first, since the collation of
  the host puts it first.
\<close>

theorem report_order_counterexample:
  "classify resultBcap = Highlight (Finite 120)
   \<and> classify resultA = Highlight (Finite 120)
   \<and> lexCompare (tracePath (project resultBcap)) (tracePath (project resultA)) < 0
   \<and> fst (reportResults collate 2 [resultBcap, resultA]) =
       [''Analyzed trace-a.json'', ''Hot spots (120ms)'', [],
        ''Analyzed trace-B.json'', ''Hot spots (120ms)'']
   \<and> \<not> sorted_wrt (ranks_before lexCompare)
         (array_sort (compareHighlights collate) (highlights_of [resultBcap, resultA]))"
proof -
  have 1: "classify resultBcap = Highlight (Finite 120)" by code_simp
  have 2: "classify resultA = Highlight (Finite 120)" by code_simp
  have 3: "lexCompare (tracePath (project resultBcap)) (tracePath (project resultA)) < 0"
    by code_simp
  have 4: "fst (reportResults collate 2 [resultBcap, resultA]) =
       [''Analyzed trace-a.json'', ''Hot spots (120ms)'', [],
        ''Analyzed trace-B.json'', ''Hot spots (120ms)'']"
    by code_simp
  have 5: "\<not> sorted_wrt (ranks_before lexCompare)
         (array_sort (compareHighlights collate) (highlights_of [resultBcap, resultA]))"
    by code_simp
  from 1 2 3 4 5 show ?thesis by simp
qed

text \<open>
  C8. Every highlight entry starts with the line \<^verbatim>\<open>Analyzed\<close> and the description of its
  project when more than one project was analyzed or the project carries a label, and
  consists of the analyzer's stdout alone otherwise; every error entry starts with the
  line \<^verbatim>\<open>Error analyzing\<close> and the description, whatever the number of projects.
\<close>

theorem entry_prefix:
  assumes "list_all well_typed results"
  shows "fst (reportResults lc n results) =
     join_blocks
       (map (\<lambda>(r, sc).
               (if 1 < n \<or> labelled (project r)
                then [''Analyzed '' @ getProjectDescription (project r)] else [])
               @ [stdout r])
            (array_sort (compareHighlights lc) (highlights_of results))
        @ map (\<lambda>r. (''Error analyzing '' @ getProjectDescription (project r)) # errorDetail r)
            (errors_of results)
        @ nothingLines n (length (highlights_of results) + length (errors_of results)))"
proof -
  have lab: "truthy_opt_string (configFilePath p) = labelled p" for p
    by (cases "configFilePath p") (simp_all add: truthy_opt_string_def truthy_string_def labelled_def)
  have h: "highlightLines n = (\<lambda>(r, sc).
      (if 1 < n \<or> labelled (project r)
       then [''Analyzed '' @ getProjectDescription (project r)] else []) @ [stdout r])"
    by (rule ext) (simp add: highlightLines_def lab split: prod.splits)
  have e: "errorLines = (\<lambda>r. (''Error analyzing '' @ getProjectDescription (project r)) # errorDetail r)"
    by (rule ext) (simp add: errorLines_def)
  show ?thesis
    unfolding reportResults_blocks [OF assms] h e by simp
qed

theorem entry_prefix_witness:
  "list_all well_typed [resultA] \<and> list_all well_typed [resultKilled]
   \<and> fst (reportResults collate 1 [resultA]) = [''Hot spots (120ms)'']
   \<and> fst (reportResults collate 1 [resultKilled])
       = [''Error analyzing trace-b.json'', ''Terminated with signal SIGKILL'']"
proof -
  have wt1: "list_all well_typed [resultA]" and wt2: "list_all well_typed [resultKilled]"
    by (simp_all add: well_typed_def resultA_def resultKilled_def)
  have hs1: "highlights_of [resultA] = [(resultA, Finite 120)]" and es1: "errors_of [resultA] = []"
    and hs2: "highlights_of [resultKilled] = []" and es2: "errors_of [resultKilled] = [resultKilled]"
    by code_simp+
  have a: "\<not> labelled (project resultA)" "stdout resultA = ''Hot spots (120ms)''"
    by (simp_all add: labelled_def resultA_def projectA_def)
  have k: "getProjectDescription (project resultKilled) = ''trace-b.json''"
    "errorDetail resultKilled = [''Terminated with signal SIGKILL'']"
    by code_simp+
  from entry_prefix [OF wt1, of collate 1] hs1 es1 a
  have 1: "fst (reportResults collate 1 [resultA]) = [''Hot spots (120ms)'']"
    by (simp add: array_sort_def nothingLines_def)
  from entry_prefix [OF wt2, of collate 1] hs2 es2 k
  have 2: "fst (reportResults collate 1 [resultKilled])
       = [''Error analyzing trace-b.json'', ''Terminated with signal SIGKILL'']"
    by (simp add: array_sort_def nothingLines_def)
  from wt1 wt2 1 2 show ?thesis by simp
qed


subsection \<open>One analyzer run\<close>

lemma isFile_fileExists: "isFile host path = Inr (fileExists host path)"
  by (cases "stat host path")
    (simp_all add: isFile_def promise_then_def promise_catch_def fileExists_def)

lemma forkArgs_resolved:
  "forkArgs host p =
     Inr (pushCommandLineOptions
            (tracePath p # (if fileExists host (typesPath p) then [typesPath p] else []))
            (forwardedOptions host))"
  by (simp add: forkArgs_def isFile_fileExists Let_def)

lemma promise_all_resolved:
  "promise_all (map (\<lambda>x. Inr (f x)) xs) = Inr (map f xs)"
  by (induction xs) simp_all

text \<open>
  C7. The analyzer is forked with the trace path, then the types path when and only
  when it names an existing file, then the forwarded options, in this order.
\<close>

theorem analyzer_arguments:
  "forkArgs host p =
     Inr (tracePath p # (if fileExists host (typesPath p) then [typesPath p] else [])
            @ forwardedOptions host)
   \<and> analyzeProject host p =
     Inr (onExit p (fork host
            (tracePath p # (if fileExists host (typesPath p) then [typesPath p] else [])
               @ forwardedOptions host)))"
  by (simp add: analyzeProject_def forkArgs_resolved pushCommandLineOptions_def)

theorem analyzer_arguments_witness:
  "forkArgs exampleHost projectA =
     Inr [''/data/traces/trace-a.json'', ''/data/traces/types-a.json'', ''--skipMillis'', ''100'']
   \<and> forkArgs exampleHost projectB =
     Inr [''/data/traces/trace-b.json'', ''--skipMillis'', ''100'']"
proof -
  have a: "fileExists exampleHost (typesPath projectA)"
    and b: "\<not> fileExists exampleHost (typesPath projectB)"
    by code_simp+
  have f: "forwardedOptions exampleHost = [''--skipMillis'', ''100'']"
    by (simp add: exampleHost_def)
  from analyzer_arguments [of exampleHost projectA] analyzer_arguments [of exampleHost projectB]
    a b f
  show ?thesis by (simp add: projectA_def projectB_def)
qed

text \<open>
  C10. When \<open>stat\<close> fails on a path, the check for a file resolves to false and does not
  reject; a project whose types path this is, is analyzed all the same, with the trace
  path as the only positional argument.
\<close>

theorem stat_failure_is_no_file:
  assumes "stat host path = Inl e" and "typesPath p = path"
  shows "isFile host path = Inr False
         \<and> forkArgs host p = Inr (pushCommandLineOptions [tracePath p] (forwardedOptions host))
         \<and> analyzeProject host p =
             Inr (onExit p (fork host (pushCommandLineOptions [tracePath p] (forwardedOptions host))))"
proof -
  from assms(1) have no: "fileExists host path = False" by (simp add: fileExists_def)
  with assms(2) show ?thesis
    by (simp add: isFile_fileExists analyzeProject_def forkArgs_resolved)
qed

theorem stat_failure_is_no_file_witness:
  "stat exampleHost ''/data/traces/types-b.json'' = Inl ''ENOENT''
   \<and> typesPath projectB = ''/data/traces/types-b.json''
   \<and> isFile exampleHost ''/data/traces/types-b.json'' = Inr False
   \<and> analyzeProject exampleHost projectB =
       Inr \<lparr>project = projectB, stdout = [], stderr = [], exitCode = Some 1, signal = None\<rparr>"
proof -
  have s: "stat exampleHost ''/data/traces/types-b.json'' = Inl ''ENOENT''"
    by (simp add: exampleHost_def)
  have t: "typesPath projectB = ''/data/traces/types-b.json''"
    by (simp add: projectB_def)
  have r: "onExit projectB (fork exampleHost
        (pushCommandLineOptions [tracePath projectB] (forwardedOptions exampleHost)))
      = \<lparr>project = projectB, stdout = [], stderr = [], exitCode = Some 1, signal = None\<rparr>"
    by code_simp
  from stat_failure_is_no_file [OF s t] s t r show ?thesis by simp
qed

subsection \<open>Analysis of all projects\<close>

lemma analyzeProjects_resolved:
  "analyzeProjects host ps =
     Inr (reportResults (localeCompare host) (length ps)
            (map (\<lambda>p. onExit p (fork host
                   (pushCommandLineOptions
                      (tracePath p # (if fileExists host (typesPath p) then [typesPath p] else []))
                      (forwardedOptions host)))) ps))"
proof -
  have "analyzeProject host =
      (\<lambda>p. Inr (onExit p (fork host
             (pushCommandLineOptions
                (tracePath p # (if fileExists host (typesPath p) then [typesPath p] else []))
                (forwardedOptions host)))))"
    by (rule ext) (simp add: analyzeProject_def forkArgs_resolved)
  then show ?thesis
    by (simp add: analyzeProjects_def promise_all_resolved)
qed

lemma analyzeProjects_none: "analyzeProjects host [] = Inr ([], 1)"
  by (simp add: analyzeProjects_def reportResults_def array_sort_def)

subsection \<open>Discovery\<close>

lemma match_trace_Some: "match_trace name = Some m \<Longrightarrow> m = drop 5 name"
  by (simp add: match_trace_def Let_def split: if_splits)

lemma scanLoop_acc:
  "scanLoop dir entries acc = acc @ map (scannedProject dir) (filter isTraceFile entries)"
proof (induction entries arbitrary: acc)
  case Nil
  show ?case by simp
next
  case (Cons entry entries)
  show ?case
  proof (cases "match_trace (dirent_name entry)")
    case None
    then show ?thesis by (simp add: Cons.IH isTraceFile_def)
  next
    case (Some m)
    then have "m = drop 5 (dirent_name entry)" by (rule match_trace_Some)
    with Some show ?thesis by (simp add: Cons.IH isTraceFile_def scannedProject_def)
  qed
qed

lemma discover_without_legend:
  assumes "\<not> fileExists host (legendPath host)"
  shows "discoverProjects host =
     (case readdir host (traceDir host) of
        Inl e \<Rightarrow> ([], Inl e)
      | Inr entries \<Rightarrow>
          ([], Inr (Typed (map (scannedProject (traceDir host)) (filter isTraceFile entries)))))"
  using assms
  by (simp add: discoverProjects_def scanDirectory_def isFile_fileExists legendPath_def scanLoop_acc
      split: sum.splits)

text \<open>
  On an entry of the legend that is a \<^verbatim>\<open>Project\<close> the body of the loop does not throw, and
  leaves the project with both paths re-rooted.
\<close>

lemma rerootEntry_typed:
  assumes "asProject e = Some p"
  shows "\<exists>e'. rerootEntry host e = (e', None) \<and> asProject e' = Some (rerootProject host p)"
proof -
  from assms obtain props where e: "e = JObject props"
    by (cases e) (simp_all add: asProject_def)
  from assms e obtain t y where t: "map_of props ''tracePath'' = Some (JString t)"
    and y: "map_of props ''typesPath'' = Some (JString y)"
    by (auto simp: asProject_def split: option.splits json.splits)
  define t' where "t' = path_resolve (cwd host) [traceDir host, basename t]"
  define y' where "y' = path_resolve (cwd host) [traceDir host, basename y]"
  define props' where
    "props' = AList.update ''typesPath'' (JString y') (AList.update ''tracePath'' (JString t') props)"
  have r: "rerootEntry host e = (JObject props', None)"
    by (simp add: rerootEntry_def rerootProperty_def getProperty_def basenameOf_def
        setProperty_def e t y update_conv' props'_def t'_def y'_def)
  have m: "map_of props' ''tracePath'' = Some (JString t')"
    "map_of props' ''typesPath'' = Some (JString y')"
    "map_of props' ''configFilePath'' = map_of props ''configFilePath''"
    by (simp_all add: props'_def update_conv')
  from assms e t y have "asProject (JObject props') = Some (rerootProject host p)"
    by (auto simp: asProject_def m rerootProject_def t'_def y'_def split: option.splits json.splits)
  with r show ?thesis by blast
qed

lemma legendLoop_typed:
  assumes "those (map asProject es) = Some ps"
  shows "\<exists>es'. legendLoop host es = (es', None)
           \<and> those (map asProject es') = Some (map (rerootProject host) ps)"
  using assms
proof (induction es arbitrary: ps)
  case Nil
  then show ?case by simp
next
  case (Cons e es)
  from Cons.prems obtain p qs where p: "asProject e = Some p"
    and qs: "those (map asProject es) = Some qs" and ps: "ps = p # qs"
    by (auto split: option.splits)
  from rerootEntry_typed [OF p] obtain e' where e': "rerootEntry host e = (e', None)"
    and pe: "asProject e' = Some (rerootProject host p)" by blast
  from Cons.IH [OF qs] obtain es' where es': "legendLoop host es = (es', None)"
    and pes: "those (map asProject es') = Some (map (rerootProject host) qs)" by blast
  from e' es' pe pes ps show ?case by simp
qed

lemma discover_typed_legend:
  assumes "legendParses host v" and "asProjects v = Some ps"
  shows "discoverProjects host = ([], Inr (Typed (map (rerootProject host) ps)))"
proof -
  from assms(2) obtain es where v: "v = JArray es" and es: "those (map asProject es) = Some ps"
    by (cases v) (simp_all add: asProjects_def)
  from legendLoop_typed [OF es] obtain es' where l: "legendLoop host es = (es', None)"
    and t: "those (map asProject es') = Some (map (rerootProject host) ps)" by blast
  from assms(1) obtain legendText
    where f: "fileExists host (path_join [traceDir host, ''legend.json''])"
      and r: "readFile host (path_join [traceDir host, ''legend.json'']) = Inr legendText"
      and j: "JSON_parse host legendText = Inr v"
    by (auto simp: legendParses_def legendPath_def)
  have "readLegend host (path_join [traceDir host, ''legend.json'']) = ([], Some (JArray es'))"
    by (simp add: readLegend_def r j v rerootLegend_def l)
  then show ?thesis
    by (simp add: discoverProjects_def isFile_fileExists f Let_def truthy_json_def ofLegend_def
        asProjects_def t)
qed

lemma discover_empty_legend:
  assumes "legendParses host (JArray [])"
  shows "discoverProjects host = ([], Inr (Typed []))"
  using discover_typed_legend [OF assms, of "[]"] by (simp add: asProjects_def)

text \<open>
  When the legend cannot be read or its text does not parse, \<open>projects\<close> stays undefined:
  the error is reported and the directory is scanned.
\<close>

lemma discover_broken_legend:
  assumes "legendParseFails host msg"
  shows "discoverProjects host =
     (case readdir host (traceDir host) of
        Inl e \<Rightarrow> ([''Error reading legend file: '' @ msg], Inl e)
      | Inr entries \<Rightarrow>
          ([''Error reading legend file: '' @ msg],
           Inr (Typed (map (scannedProject (traceDir host)) (filter isTraceFile entries)))))"
  using assms
  by (auto simp: discoverProjects_def scanDirectory_def isFile_fileExists legendPath_def
      legendParseFails_def readLegend_def scanLoop_acc split: sum.splits)

lemma program_none:
  assumes "discoverProjects host = ([], Inr (Typed []))"
  shows "program host = Some \<lparr>logged = [], errors = [], exitStatus = 1\<rparr>"
  by (simp add: program_def main_def assms analyzeProjects_none)

subsection \<open>Re-rooting by base name\<close>

lemma basename_no_slash: "CHR ''/'' \<notin> set (basename x)"
proof -
  have "\<forall>c\<in>set (takeWhile (\<lambda>c. \<not> is_slash c) ys). \<not> is_slash c" for ys
    by (auto dest: set_takeWhileD)
  then show ?thesis by (auto simp: basename_def is_slash_def)
qed

lemma split_slash_plain: "CHR ''/'' \<notin> set s \<Longrightarrow> split_slash s = [s]"
  by (induction s) (auto simp: is_slash_def)

lemma split_slash_append:
  "split_slash (a @ CHR ''/'' # b) = split_slash a @ split_slash b"
proof (induction a)
  case Nil
  show ?case by (simp add: is_slash_def)
next
  case (Cons c a)
  have ne: "split_slash a \<noteq> []" by (cases a) (simp_all split: list.splits)
  then obtain s ss where s: "split_slash a = s # ss" by (cases "split_slash a") auto
  show ?case by (simp add: Cons.IH s)
qed

lemma normalize_segments_append:
  "normalize_segments allow res (xs @ ys)
     = normalize_segments allow (normalize_segments allow res xs) ys"
proof (cases allow)
  case True
  have "normalize_segments True res (xs @ ys)
      = normalize_segments True (normalize_segments True res xs) ys" for res
    by (induction xs arbitrary: res) simp_all
  with True show ?thesis by simp
next
  case False
  have "normalize_segments False res (xs @ ys)
      = normalize_segments False (normalize_segments False res xs) ys" for res
    by (induction xs arbitrary: res) simp_all
  with False show ?thesis by simp
qed

lemma resolve_loop_acc: "resolve_loop ps acc = resolve_loop ps [] @ acc"
proof (induction ps arbitrary: acc)
  case Nil
  show ?case by simp
next
  case (Cons p ps)
  show ?case
    using Cons.IH [of "p @ CHR ''/'' # acc"] Cons.IH [of "p @ ''/''"] Cons.IH [of acc]
    by simp
qed

lemma resolve_loop_dir:
  assumes "isAbsolute wd"
  shows "\<exists>r. resolve_loop [dir, wd] [] = CHR ''/'' # r @ ''/''"
proof -
  from assms obtain w where wd: "wd = CHR ''/'' # w"
    by (cases wd) (simp_all add: isAbsolute_def is_slash_def)
  show ?thesis
  proof (cases dir)
    case Nil
    then show ?thesis by (simp add: wd isAbsolute_def is_slash_def)
  next
    case (Cons c d)
    show ?thesis
    proof (cases "c = CHR ''/''")
      case True
      with Cons show ?thesis by (simp add: isAbsolute_def is_slash_def)
    next
      case False
      with Cons have "resolve_loop [dir, wd] [] = CHR ''/'' # (w @ ''/'' @ dir) @ ''/''"
        by (simp add: wd isAbsolute_def is_slash_def)
      then show ?thesis by blast
    qed
  qed
qed

text \<open>
  A base name that names a file (not empty, not \<^verbatim>\<open>.\<close>, not \<^verbatim>\<open>..\<close>) is re-rooted to the
  segments of the resolved directory followed by that name: whatever directories the
  entry of the legend names, the path stays inside the trace directory.
\<close>

theorem reroot_inside:
  assumes "isAbsolute wd" and "basename x \<noteq> []" and "basename x \<noteq> ''.''" and "basename x \<noteq> ''..''"
  shows "\<exists>parent. path_resolve wd [dir] = CHR ''/'' # join_slash parent
            \<and> path_resolve wd [dir, basename x] = CHR ''/'' # join_slash (parent @ [basename x])"
proof -
  let ?name = "basename x"
  obtain r where r1: "resolve_loop [dir, wd] [] = CHR ''/'' # r @ ''/''"
    using resolve_loop_dir [OF assms(1)] by blast
  have rel: "\<not> isAbsolute ?name"
    using basename_no_slash [of x] by (cases ?name) (auto simp: isAbsolute_def is_slash_def)
  have e1: "resolve_loop [?name, dir, wd] [] = resolve_loop [dir, wd] (?name @ ''/'')"
    using assms(2) rel by simp
  have e2: "resolve_loop [dir, wd] (?name @ ''/'') = resolve_loop [dir, wd] [] @ ?name @ ''/''"
    by (rule resolve_loop_acc)
  have r2: "resolve_loop [?name, dir, wd] [] = CHR ''/'' # r @ CHR ''/'' # ?name @ ''/''"
    unfolding e1 e2 r1 by simp
  define parent where "parent = normalize_segments False [] (split_slash (CHR ''/'' # r))"
  have s1: "normalize_segments False [] (split_slash (CHR ''/'' # r @ ''/'')) = parent"
    using split_slash_append [of "CHR ''/'' # r" "[]"]
    by (simp add: normalize_segments_append parent_def)
  have "split_slash (CHR ''/'' # r @ CHR ''/'' # ?name @ ''/'')
      = split_slash (CHR ''/'' # r) @ split_slash ?name @ split_slash []"
    using split_slash_append [of "CHR ''/'' # r" "?name @ ''/''"] split_slash_append [of ?name "[]"]
    by simp
  then have "split_slash (CHR ''/'' # r @ CHR ''/'' # ?name @ ''/'')
      = split_slash (CHR ''/'' # r) @ [?name, []]"
    by (simp add: split_slash_plain [OF basename_no_slash])
  then have s2: "normalize_segments False [] (split_slash (CHR ''/'' # r @ CHR ''/'' # ?name @ ''/''))
      = parent @ [?name]"
    using assms(2,3,4) by (simp add: normalize_segments_append parent_def)
  have abs1: "isAbsolute (CHR ''/'' # r @ ''/'')"
    and abs2: "isAbsolute (CHR ''/'' # r @ CHR ''/'' # ?name @ ''/'')"
    by (simp_all add: isAbsolute_def is_slash_def)
  have "path_resolve wd [dir] = CHR ''/'' # join_slash parent"
    unfolding path_resolve_def normalizeString_def Let_def
    by (simp add: r1 abs1 s1 del: resolve_loop.simps split_slash.simps normalize_segments.simps)
  moreover have "path_resolve wd [dir, ?name] = CHR ''/'' # join_slash (parent @ [?name])"
    unfolding path_resolve_def normalizeString_def Let_def
    by (simp add: r2 abs2 s2 del: resolve_loop.simps split_slash.simps normalize_segments.simps)
  ultimately show ?thesis by blast
qed

theorem reroot_inside_witness:
  "isAbsolute ''/home/u'' \<and> basename ''../../evil.json'' = ''evil.json''
   \<and> path_resolve ''/home/u'' [''/data/traces'', basename ''../../evil.json'']
       = ''/data/traces/evil.json''
   \<and> (\<exists>parent. path_resolve ''/home/u'' [''/data/traces''] = CHR ''/'' # join_slash parent
          \<and> path_resolve ''/home/u'' [''/data/traces'', basename ''../../evil.json'']
              = CHR ''/'' # join_slash (parent @ [basename ''../../evil.json'']))"
proof -
  have a: "isAbsolute ''/home/u''" by code_simp
  have b: "basename ''../../evil.json'' = ''evil.json''" by code_simp
  have p: "path_resolve ''/home/u'' [''/data/traces'', basename ''../../evil.json'']
       = ''/data/traces/evil.json''" by code_simp
  have n: "basename ''../../evil.json'' \<noteq> []" "basename ''../../evil.json'' \<noteq> ''.''"
    "basename ''../../evil.json'' \<noteq> ''..''"
    unfolding b by simp_all
  from reroot_inside [OF a n, of "''/data/traces''"] a b p show ?thesis by simp
qed


subsection \<open>What discovery decides\<close>

text \<open>
  C4, as the source has it. Without a legend and without a trace file in the directory,
  or with a legend of no entries, nothing is logged and the status is 1: the line
  \<^verbatim>\<open>Found nothing in ...\<close> is logged only when some project is not among the printed ones,
  and there is no project at all.
\<close>

theorem nothing_to_analyze:
  assumes "(\<not> fileExists host (legendPath host)
            \<and> (\<exists>entries. readdir host (traceDir host) = Inr entries \<and> \<not> list_ex isTraceFile entries))
           \<or> legendParses host (JArray [])"
  shows "program host = Some \<lparr>logged = [], errors = [], exitStatus = 1\<rparr>"
proof -
  have "discoverProjects host = ([], Inr (Typed []))"
    using assms
  proof
    assume a: "\<not> fileExists host (legendPath host)
            \<and> (\<exists>entries. readdir host (traceDir host) = Inr entries \<and> \<not> list_ex isTraceFile entries)"
    then obtain entries where r: "readdir host (traceDir host) = Inr entries"
      and none: "\<not> list_ex isTraceFile entries" by blast
    from none have "filter isTraceFile entries = []"
      by (simp add: filter_empty_conv list_ex_iff)
    with a r show ?thesis by (simp add: discover_without_legend)
  next
    assume "legendParses host (JArray [])"
    then show ?thesis by (rule discover_empty_legend)
  qed
  then show ?thesis by (rule program_none)
qed

theorem nothing_to_analyze_witness:
  "\<not> fileExists emptyDirHost (legendPath emptyDirHost)
   \<and> readdir emptyDirHost (traceDir emptyDirHost)
       = Inr [\<lparr>dirent_name = ''notes.txt'', dirent_isFile = True\<rparr>,
              \<lparr>dirent_name = ''trace-old.json'', dirent_isFile = False\<rparr>]
   \<and> \<not> list_ex isTraceFile [\<lparr>dirent_name = ''notes.txt'', dirent_isFile = True\<rparr>,
                              \<lparr>dirent_name = ''trace-old.json'', dirent_isFile = False\<rparr>]
   \<and> program emptyDirHost = Some \<lparr>logged = [], errors = [], exitStatus = 1\<rparr>"
proof -
  let ?entries = "[\<lparr>dirent_name = ''notes.txt'', dirent_isFile = True\<rparr>,
                   \<lparr>dirent_name = ''trace-old.json'', dirent_isFile = False\<rparr>]"
  have l: "\<not> fileExists emptyDirHost (legendPath emptyDirHost)"
    by code_simp
  have r: "readdir emptyDirHost (traceDir emptyDirHost) = Inr ?entries"
    by (simp add: emptyDirHost_def)
  have n: "\<not> list_ex isTraceFile ?entries"
    by code_simp
  from l r n have "(\<not> fileExists emptyDirHost (legendPath emptyDirHost)
            \<and> (\<exists>entries. readdir emptyDirHost (traceDir emptyDirHost) = Inr entries
                  \<and> \<not> list_ex isTraceFile entries))
           \<or> legendParses emptyDirHost (JArray [])"
    by blast
  from nothing_to_analyze [OF this] l r n show ?thesis by simp
qed

text \<open>
  C4, as the claim has it, fails on a directory with no trace file and no legend: the
  claim expects one logged line, and none is logged.
\<close>

theorem nothing_to_analyze_counterexample:
  "\<not> fileExists emptyDirHost (legendPath emptyDirHost)
   \<and> readdir emptyDirHost (traceDir emptyDirHost)
       = Inr [\<lparr>dirent_name = ''notes.txt'', dirent_isFile = True\<rparr>,
              \<lparr>dirent_name = ''trace-old.json'', dirent_isFile = False\<rparr>]
   \<and> \<not> isTraceFile \<lparr>dirent_name = ''notes.txt'', dirent_isFile = True\<rparr>
   \<and> \<not> isTraceFile \<lparr>dirent_name = ''trace-old.json'', dirent_isFile = False\<rparr>
   \<and> map_option logged (program emptyDirHost) = Some []
   \<and> map_option logged (program emptyDirHost) \<noteq> Some [''Found nothing in 0 project(s)'']
   \<and> map_option (\<lambda>p. length (logged p)) (program emptyDirHost) \<noteq> Some 1
   \<and> map_option exitStatus (program emptyDirHost) = Some 1"
proof -
  have l: "\<not> fileExists emptyDirHost (legendPath emptyDirHost)"
    by code_simp
  have r: "readdir emptyDirHost (traceDir emptyDirHost)
       = Inr [\<lparr>dirent_name = ''notes.txt'', dirent_isFile = True\<rparr>,
              \<lparr>dirent_name = ''trace-old.json'', dirent_isFile = False\<rparr>]"
    by (simp add: emptyDirHost_def)
  have n: "\<not> isTraceFile \<lparr>dirent_name = ''notes.txt'', dirent_isFile = True\<rparr>"
    "\<not> isTraceFile \<lparr>dirent_name = ''trace-old.json'', dirent_isFile = False\<rparr>"
    by code_simp+
  have p: "program emptyDirHost = Some \<lparr>logged = [], errors = [], exitStatus = 1\<rparr>"
    by code_simp
  from l r n show ?thesis by (simp add: p)
qed

text \<open>
  C5. Each entry of the legend is re-rooted under the trace directory by its base name
  alone (\<open>discover_typed_legend\<close>), and a base name that names a file stays inside the directory
  (\<open>reroot_inside\<close>). The base name of a path can be \<^verbatim>\<open>..\<close>, though: the entry with the
  trace path \<^verbatim>\<open>..\<close> is re-rooted to the parent of the trace directory, outside of it.
\<close>

theorem legend_dotdot_escapes:
  "traceDir dotdotLegendHost = ''/data/traces''
   \<and> basename ''..'' = ''..''
   \<and> discoverProjects dotdotLegendHost =
       ([], Inr (Typed [\<lparr>configFilePath = None, tracePath = ''/data'',
                         typesPath = ''/data/traces/types.json''\<rparr>]))"
proof -
  have t: "traceDir dotdotLegendHost = ''/data/traces''"
    by code_simp
  have b: "basename ''..'' = ''..''"
    by code_simp
  have d: "discoverProjects dotdotLegendHost =
       ([], Inr (Typed [\<lparr>configFilePath = None, tracePath = ''/data'',
                         typesPath = ''/data/traces/types.json''\<rparr>]))"
    by code_simp
  from t b d show ?thesis by simp
qed

text \<open>
  When the legend is a file that cannot be read or whose text \<^verbatim>\<open>JSON.parse\<close> refuses, the
  error is reported on the error console, the projects are those of the trace files found
  by scanning the directory, and \<open>main\<close> goes on to the analysis and resolves with its
  report and status.
\<close>

lemma unparsable_legend_falls_back:
  assumes "legendParseFails host msg" and "readdir host (traceDir host) = Inr entries"
  shows "discoverProjects host =
           ([''Error reading legend file: '' @ msg],
            Inr (Typed (map (scannedProject (traceDir host)) (filter isTraceFile entries))))
         \<and> main host =
           ([''Error reading legend file: '' @ msg],
            Some (analyzeProjects host
                    (map (scannedProject (traceDir host)) (filter isTraceFile entries))))
         \<and> (\<exists>out code. snd (main host) = Some (Inr (out, code)))"
proof -
  have d: "discoverProjects host =
           ([''Error reading legend file: '' @ msg],
            Inr (Typed (map (scannedProject (traceDir host)) (filter isTraceFile entries))))"
    by (simp add: discover_broken_legend [OF assms(1)] assms(2))
  then have m: "main host =
           ([''Error reading legend file: '' @ msg],
            Some (analyzeProjects host
                    (map (scannedProject (traceDir host)) (filter isTraceFile entries))))"
    by (simp add: main_def)
  have "\<exists>out code. snd (main host) = Some (Inr (out, code))"
    unfolding m analyzeProjects_resolved by (simp add: prod_eq_iff)
  with d m show ?thesis by blast
qed

lemma unparsable_legend_run:
  "legendParseFails brokenLegendHost ''Unexpected end of JSON input''
   \<and> program brokenLegendHost =
       Some \<lparr>logged = [''Analyzed trace-a.json'', ''Hot spots (120ms)'', [],
                       ''Found nothing in 1 other project(s)''],
             errors = [''Error reading legend file: Unexpected end of JSON input''],
             exitStatus = 0\<rparr>"
proof -
  have f: "fileExists brokenLegendHost (legendPath brokenLegendHost)"
    by code_simp
  have "readFile brokenLegendHost (legendPath brokenLegendHost) = Inr ''...''
      \<and> JSON_parse brokenLegendHost ''...'' = Inl ''Unexpected end of JSON input''"
    by (simp add: brokenLegendHost_def legendHost_def)
  with f have l: "legendParseFails brokenLegendHost ''Unexpected end of JSON input''"
    unfolding legendParseFails_def by blast
  have "program brokenLegendHost =
       Some \<lparr>logged = [''Analyzed trace-a.json'', ''Hot spots (120ms)'', [],
                       ''Found nothing in 1 other project(s)''],
             errors = [''Error reading legend file: Unexpected end of JSON input''],
             exitStatus = 0\<rparr>"
    by code_simp
  with l show ?thesis by simp
qed

text \<open>
  C6. The legend is refused with the same report when its text parses to a value that
  the loop over its entries cannot process; and then \<open>projects\<close> holds this value
  already, so that the directory is not scanned. On the legend \<^verbatim>\<open>{}\<close>, in a directory
  with two trace files, the error is reported, no project is analyzed and the run aborts
  with an internal error and the status 2. On a legend whose only entry has no types
  path the error is reported and the entry is kept with its trace path re-rooted; the
  directory is not scanned either.
\<close>

theorem refused_legend_no_fallback:
  "JSON_parse objectLegendHost ''...'' = Inr (JObject [])
   \<and> readdir objectLegendHost (traceDir objectLegendHost) =
       Inr [\<lparr>dirent_name = ''trace-a.json'', dirent_isFile = True\<rparr>,
            \<lparr>dirent_name = ''types-a.json'', dirent_isFile = True\<rparr>,
            \<lparr>dirent_name = ''trace-b.json'', dirent_isFile = True\<rparr>]
   \<and> filter isTraceFile [\<lparr>dirent_name = ''trace-a.json'', dirent_isFile = True\<rparr>,
                         \<lparr>dirent_name = ''types-a.json'', dirent_isFile = True\<rparr>,
                         \<lparr>dirent_name = ''trace-b.json'', dirent_isFile = True\<rparr>]
       = [\<lparr>dirent_name = ''trace-a.json'', dirent_isFile = True\<rparr>,
          \<lparr>dirent_name = ''trace-b.json'', dirent_isFile = True\<rparr>]
   \<and> discoverProjects objectLegendHost =
       ([''Error reading legend file: projects is not iterable''], Inr (Untyped (JObject [])))
   \<and> program objectLegendHost =
       Some \<lparr>logged = [],
             errors = [''Error reading legend file: projects is not iterable'',
                       ''Internal error: projects.map is not a function''],
             exitStatus = 2\<rparr>
   \<and> discoverProjects halfLegendHost =
       ([''Error reading legend file: The path argument must be of type string''],
        Inr (Untyped (JArray [JObject [(''tracePath'', JString ''/data/traces/trace-a.json'')]])))"
proof -
  have j: "JSON_parse objectLegendHost ''...'' = Inr (JObject [])"
    by (simp add: objectLegendHost_def legendHost_def)
  have r: "readdir objectLegendHost (traceDir objectLegendHost) =
       Inr [\<lparr>dirent_name = ''trace-a.json'', dirent_isFile = True\<rparr>,
            \<lparr>dirent_name = ''types-a.json'', dirent_isFile = True\<rparr>,
            \<lparr>dirent_name = ''trace-b.json'', dirent_isFile = True\<rparr>]"
    by (simp add: objectLegendHost_def legendHost_def exampleHost_def)
  have t: "filter isTraceFile [\<lparr>dirent_name = ''trace-a.json'', dirent_isFile = True\<rparr>,
                         \<lparr>dirent_name = ''types-a.json'', dirent_isFile = True\<rparr>,
                         \<lparr>dirent_name = ''trace-b.json'', dirent_isFile = True\<rparr>]
       = [\<lparr>dirent_name = ''trace-a.json'', dirent_isFile = True\<rparr>,
          \<lparr>dirent_name = ''trace-b.json'', dirent_isFile = True\<rparr>]"
    by code_simp
  have d: "discoverProjects objectLegendHost =
       ([''Error reading legend file: projects is not iterable''], Inr (Untyped (JObject [])))"
    by code_simp
  have p: "program objectLegendHost =
       Some \<lparr>logged = [],
             errors = [''Error reading legend file: projects is not iterable'',
                       ''Internal error: projects.map is not a function''],
             exitStatus = 2\<rparr>"
    by code_simp
  have h: "discoverProjects halfLegendHost =
       ([''Error reading legend file: The path argument must be of type string''],
        Inr (Untyped (JArray [JObject [(''tracePath'', JString ''/data/traces/trace-a.json'')]])))"
    by code_simp
  from j r t d p h show ?thesis by simp
qed

text \<open>
  C9. When the legend parses to no entry, no project is discovered, whatever the
  directory holds and even when it cannot be read: the scan is not used.
\<close>

theorem empty_legend_no_scan:
  assumes "legendParses host (JArray [])"
  shows "\<forall>rd. discoverProjects (host\<lparr>readdir := rd\<rparr>) = ([], Inr (Typed []))
              \<and> program (host\<lparr>readdir := rd\<rparr>)
                  = Some \<lparr>logged = [], errors = [], exitStatus = 1\<rparr>"
proof
  fix rd
  from assms have "legendParses (host\<lparr>readdir := rd\<rparr>) (JArray [])"
    by (simp add: legendParses_def legendPath_def fileExists_def)
  then have "discoverProjects (host\<lparr>readdir := rd\<rparr>) = ([], Inr (Typed []))"
    by (rule discover_empty_legend)
  then show "discoverProjects (host\<lparr>readdir := rd\<rparr>) = ([], Inr (Typed []))
      \<and> program (host\<lparr>readdir := rd\<rparr>) = Some \<lparr>logged = [], errors = [], exitStatus = 1\<rparr>"
    by (simp add: program_none)
qed

theorem empty_legend_no_scan_witness:
  "legendParses emptyLegendHost (JArray [])
   \<and> isTraceFile \<lparr>dirent_name = ''trace-a.json'', dirent_isFile = True\<rparr>
   \<and> discoverProjects
        (emptyLegendHost\<lparr>readdir := \<lambda>d. Inr [\<lparr>dirent_name = ''trace-a.json'', dirent_isFile = True\<rparr>]\<rparr>)
       = ([], Inr (Typed []))
   \<and> discoverProjects (emptyLegendHost\<lparr>readdir := \<lambda>d. Inl ''EACCES''\<rparr>) = ([], Inr (Typed []))"
proof -
  have f: "fileExists emptyLegendHost (legendPath emptyLegendHost)"
    by code_simp
  have "readFile emptyLegendHost (legendPath emptyLegendHost) = Inr ''...''
      \<and> JSON_parse emptyLegendHost ''...'' = Inr (JArray [])"
    by (simp add: emptyLegendHost_def legendHost_def)
  with f have l: "legendParses emptyLegendHost (JArray [])"
    unfolding legendParses_def by blast
  have t: "isTraceFile \<lparr>dirent_name = ''trace-a.json'', dirent_isFile = True\<rparr>"
    by code_simp
  from empty_legend_no_scan [OF l] l t show ?thesis by simp
qed


subsection \<open>Whole runs\<close>

text \<open>
  The process exits with the status of the report over the results of the discovered
  projects, each analyzed with its own arguments.
\<close>

lemma program_status:
  assumes "discoverProjects host = (errs, Inr (Typed ps))"
  shows "map_option exitStatus (program host) =
           Some (snd (reportResults (localeCompare host) (length ps)
                  (map (\<lambda>p. onExit p (fork host
                         (pushCommandLineOptions
                            (tracePath p # (if fileExists host (typesPath p) then [typesPath p] else []))
                            (forwardedOptions host)))) ps)))"
  by (simp add: program_def main_def assms analyzeProjects_resolved split: prod.splits)

lemma nothing_found_only:
  assumes "list_all (\<lambda>r. classify r = NothingFound) rs"
  shows "highlights_of rs = [] \<and> errors_of rs = []"
  using assms
  by (induction rs) (simp_all add: highlights_of_Nil highlights_of_Cons scored_def errors_of_def)

text \<open>
  When every analyzer run ends with the exit code 1, no stderr and no signal, the report
  is the single line counting all projects, and the status is 1.
\<close>

theorem all_nothing_found:
  assumes "list_all (\<lambda>r. stderr r = [] \<and> signal r = None \<and> exitCode r = Some 1) results"
    and "results \<noteq> []"
  shows "reportResults lc (length results) results =
           ([''Found nothing in '' @ string_of_nat (length results) @ '' project(s)''], 1)"
proof -
  from assms(1) have wt: "list_all well_typed results"
    by (simp add: list_all_iff well_typed_def)
  from assms(1) have "list_all (\<lambda>r. classify r = NothingFound) results"
    by (simp add: list_all_iff classify_def)
  then have none: "highlights_of results = []" "errors_of results = []"
    using nothing_found_only by blast+
  from assms(2) show ?thesis
    by (simp add: reportResults_blocks [OF wt] none array_sort_def nothingLines_def)
qed

theorem all_nothing_found_witness:
  "list_all (\<lambda>r. stderr r = [] \<and> signal r = None \<and> exitCode r = Some 1)
     [resultNothing, resultNothing, resultNothing]
   \<and> reportResults collate 3 [resultNothing, resultNothing, resultNothing]
       = ([''Found nothing in 3 project(s)''], 1)"
proof -
  let ?rs = "[resultNothing, resultNothing, resultNothing]"
  have h: "list_all (\<lambda>r. stderr r = [] \<and> signal r = None \<and> exitCode r = Some 1) ?rs"
    by (simp add: resultNothing_def)
  have len: "length ?rs = 3" by simp
  have s: "string_of_nat 3 = ''3''" by code_simp
  have "reportResults collate (length ?rs) ?rs =
      ([''Found nothing in '' @ string_of_nat (length ?rs) @ '' project(s)''], 1)"
    by (rule all_nothing_found [OF h]) simp
  then have "reportResults collate 3 ?rs = ([''Found nothing in 3 project(s)''], 1)"
    unfolding len s by simp
  with h show ?thesis by simp
qed

text \<open>
  The run on the example directory: the analyzer is given both files of \<open>a\<close> and the
  trace of \<open>b\<close> alone; the report is the block of \<open>a\<close>, a blank line and the count.
\<close>

theorem example_run:
  "map (forkArgs exampleHost)
       [\<lparr>configFilePath = None, tracePath = ''/data/traces/trace-a.json'',
          typesPath = ''/data/traces/types-a.json''\<rparr>,
        \<lparr>configFilePath = None, tracePath = ''/data/traces/trace-b.json'',
          typesPath = ''/data/traces/types-b.json''\<rparr>]
     = [Inr [''/data/traces/trace-a.json'', ''/data/traces/types-a.json'', ''--skipMillis'', ''100''],
        Inr [''/data/traces/trace-b.json'', ''--skipMillis'', ''100'']]
   \<and> program exampleHost =
       Some \<lparr>logged = [''Analyzed trace-a.json'', ''Hot spots (120ms)'', [],
                       ''Found nothing in 1 other project(s)''],
             errors = [], exitStatus = 0\<rparr>"
  by code_simp


end
